theory Spec2Isabelle
  imports Complex_Main "HOL-Library.Word"
begin

unbundle bit_operations_syntax

section \<open>The CPU of pyarch (cpu.py) as a state-passing model\<close>

text \<open>
  Python integers are unbounded, so register values, addresses and memory cells are
  \<open>int\<close>. The remainder \<open>%\<close> takes the sign of the divisor and \<open>//\<close> is the
  floor of the quotient, which is what \<open>mod\<close> and \<open>div\<close> on \<open>int\<close> compute. The
  bitwise operators and the two shifts of Python see an integer in two's complement with
  infinitely many sign bits, and so do the bit operations of HOL on \<open>int\<close>.

  Every Python exception that an operation can raise is a value of \<open>exn\<close>:
  a subscript out of range is \<open>IndexError\<close>, a negative shift count is \<open>ValueError\<close>,
  \<open>quit()\<close> in \<open>halt\<close> is \<open>SystemExit\<close>, a call with the wrong number of arguments
  is \<open>TypeError\<close>. \<open>Blocks\<close> stands for \<open>wait\<close> suspending on an event that is not
  set: in a single thread of control nothing can set it any more. \<open>OverflowError\<close>
  and \<open>MemoryError\<close> are what the interpreter raises when a left shift asks for an
  integer it cannot build (see \<open>host\<close> below). Output written by \<open>print\<close> and the
  locks, which are re-entrant and held by the one thread of the model, have no effect on
  the state and are left out.
\<close>

datatype exn = IndexError | ValueError | TypeError | SystemExit | Blocks
  | OverflowError | MemoryError

text \<open>
  How long an integer can get is a property of the interpreter that runs the emulator,
  not of cpu.py: CPython refuses an integer of more digits than its build allows with
  OverflowError (\<open>too many digits in integer\<close>) and one that the memory of the machine
  cannot hold with MemoryError. It is a parameter of the model: a \<open>host\<close> says, for a
  number of bits, which of the two is raised when an integer of that length is asked
  for, or \<open>None\<close> when it is built. The left shift consults it, being the one operation
  whose result is as long as a program cares to make it; the results of the other
  operations are no longer than their operands taken together, and their allocation is
  not modelled.
\<close>

type_synonym host = "nat \<Rightarrow> exn option"

definition thn :: "exn + 'a \<Rightarrow> ('a \<Rightarrow> exn + 'b) \<Rightarrow> exn + 'b" where
  "thn m f = (case m of Inl e \<Rightarrow> Inl e | Inr x \<Rightarrow> f x)"

lemma thn_cong [fundef_cong]:
  "m = m' \<Longrightarrow> (\<And>x. m' = Inr x \<Longrightarrow> f x = f' x) \<Longrightarrow> thn m f = thn m' f'"
  by (cases m') (simp_all add: thn_def)

lemma thn_Inr [simp]: "thn (Inr x) f = f x"
  by (simp add: thn_def)

lemma thn_Inl [simp]: "thn (Inl e) f = Inl e"
  by (simp add: thn_def)

definition MINVAL :: int where "MINVAL = - (2 ^ 32)"
definition MAXVAL :: int where "MAXVAL = 2 ^ 32 - 1"

definition REG_PC :: int where "REG_PC = 0x0"
definition REG_SP :: int where "REG_SP = 0x1"
definition REG_RES :: int where "REG_RES = 0x2"
definition REG_CARRY :: int where "REG_CARRY = 0x3"
definition REG_RET :: int where "REG_RET = 0x4"
definition REG_TRAP :: int where "REG_TRAP = 0x5"
definition REG_RESVD :: int where "REG_RESVD = 0x20"

definition TRAP_INTR :: int where "TRAP_INTR = 0x10"
definition TRAP_ILL :: int where "TRAP_ILL = 0x20"
definition TRAP_DIV :: int where "TRAP_DIV = 0x30"
definition TRAP_DTRAP :: int where "TRAP_DTRAP = 0x40"

lemmas reg_defs = REG_PC_def REG_SP_def REG_RES_def REG_CARRY_def REG_RET_def
  REG_TRAP_def REG_RESVD_def

lemmas trap_defs = TRAP_INTR_def TRAP_ILL_def TRAP_DIV_def TRAP_DTRAP_def

text \<open>
  The fields of \<open>CPU\<close> that the operations read or write. \<open>memory\<close> is the object
  handed to the constructor; its class is not part of the source.
\<close>

record cpu =
  memory :: "int list"
  registers :: "int list"
  intr_event :: bool
  intr_mask :: bool
  intr_pending :: bool

text \<open>\<open>__init__\<close>: 33 registers, all 0; event clear, nothing masked or pending.\<close>

definition init :: "int list \<Rightarrow> cpu" where
  "init mem = \<lparr>memory = mem, registers = replicate (nat (REG_RESVD + 1)) 0,
     intr_event = False, intr_mask = False, intr_pending = False\<rparr>"

text \<open>
  Subscripting a Python sequence of length \<open>n\<close>: an index in \<open>[0, n)\<close> is taken as it
  is, one in \<open>[-n, 0)\<close> counts from the end, anything else raises IndexError.
\<close>

definition py_index :: "nat \<Rightarrow> int \<Rightarrow> nat option" where
  "py_index n i =
     (if 0 \<le> i \<and> i < int n then Some (nat i)
      else if - int n \<le> i \<and> i < 0 then Some (nat (int n + i))
      else None)"

definition getreg :: "cpu \<Rightarrow> int \<Rightarrow> exn + int" where
  "getreg s r = (case py_index (length (registers s)) r of
       None \<Rightarrow> Inl IndexError
     | Some i \<Rightarrow> Inr (registers s ! i))"

definition setreg :: "cpu \<Rightarrow> int \<Rightarrow> int \<Rightarrow> exn + cpu" where
  "setreg s r v = (case py_index (length (registers s)) r of
       None \<Rightarrow> Inl IndexError
     | Some i \<Rightarrow> Inr (s\<lparr>registers := (registers s)[i := v]\<rparr>))"

text \<open>
  Modelled from the spec: the class of the memory object is not in the source. The spec
  describes it as a contiguous sequence of bytes of fixed length read and written by
  subscript; it is taken to be a Python list or bytearray, whose subscripts behave as
  \<open>py_index\<close> says.
\<close>

definition getmem :: "cpu \<Rightarrow> int \<Rightarrow> exn + int" where
  "getmem s a = (case py_index (length (memory s)) a of
       None \<Rightarrow> Inl IndexError
     | Some i \<Rightarrow> Inr (memory s ! i))"

definition setmem :: "cpu \<Rightarrow> int \<Rightarrow> int \<Rightarrow> exn + cpu" where
  "setmem s a v = (case py_index (length (memory s)) a of
       None \<Rightarrow> Inl IndexError
     | Some i \<Rightarrow> Inr (s\<lparr>memory := (memory s)[i := v]\<rparr>))"

subsection \<open>Traps and jumps\<close>

definition dsi :: "cpu \<Rightarrow> cpu" where
  "dsi s = s\<lparr>intr_mask := True\<rparr>"

text \<open>
  \<open>trap\<close> and \<open>jmp\<close> call each other: \<open>trap\<close> ends with \<open>jmp(addr)\<close>, and \<open>jmp\<close> to
  a negative address calls \<open>trap(TRAP_ILL)\<close>. The branch for a trap inside a trap
  returns from inside the \<open>with\<close> block, so the event is cleared by the inner call only.
\<close>

function trap :: "cpu \<Rightarrow> int \<Rightarrow> exn + cpu" and jmp :: "cpu \<Rightarrow> int \<Rightarrow> exn + cpu" where
  "trap s addr =
     (let s1 = dsi (s\<lparr>intr_event := True\<rparr>) in
      thn (getreg s1 REG_TRAP) (\<lambda>t.
        if t \<noteq> 0 \<and> addr \<noteq> TRAP_DTRAP then trap s1 TRAP_DTRAP
        else
          thn (setreg s1 REG_TRAP 1) (\<lambda>s2.
          thn (getreg s2 REG_PC) (\<lambda>pc.
          thn (setreg s2 REG_RET pc) (\<lambda>s3.
          thn (jmp s3 addr) (\<lambda>s4.
          Inr (s4\<lparr>intr_event := False\<rparr>)))))))"
| "jmp s addr =
     (if addr < 0 then trap s TRAP_ILL
      else setreg s REG_PC addr)"
  by pat_completeness auto

text \<open>
  The calls end: \<open>jmp\<close> calls \<open>trap\<close> with the vector \<open>TRAP_ILL\<close> only, a trap
  taken while the TRAP register is set goes on with \<open>TRAP_DTRAP\<close>, and that vector is
  not negative.
\<close>

definition trap_flag :: "cpu \<Rightarrow> bool" where
  "trap_flag s = (case getreg s REG_TRAP of Inl e \<Rightarrow> False | Inr t \<Rightarrow> t \<noteq> 0)"

definition trap_jmp_measure :: "cpu \<times> int + cpu \<times> int \<Rightarrow> nat" where
  "trap_jmp_measure x = (case x of
       Inl (s, v) \<Rightarrow> (if v = TRAP_DTRAP then 1 else if trap_flag s then 3 else 5)
     | Inr (s, a) \<Rightarrow> (if 0 \<le> a then 0 else if trap_flag s then 4 else 6))"

lemma getreg_setreg_same:
  "setreg s r v = Inr s' \<Longrightarrow> getreg s' r = Inr v"
  by (auto simp: setreg_def getreg_def py_index_def split: option.splits if_splits)

lemma getreg_setreg_other:
  "setreg s r v = Inr s' \<Longrightarrow> 0 \<le> r \<Longrightarrow> 0 \<le> q \<Longrightarrow> q \<noteq> r \<Longrightarrow> getreg s' q = getreg s q"
  by (auto simp: setreg_def getreg_def py_index_def split: option.splits if_splits)

termination trap
proof (relation "measure trap_jmp_measure", goal_cases)
  case 1
  show ?case by simp
next
  case (2 s addr s1 t)
  then have "trap_flag s"
    by (auto simp: trap_flag_def getreg_def dsi_def split: option.splits)
  with 2 show ?case
    by (simp add: trap_jmp_measure_def)
next
  case (3 s addr s1 t s2 pc s3)
  have "getreg s2 REG_TRAP = Inr 1"
    using 3(4) by (rule getreg_setreg_same)
  then have "getreg s3 REG_TRAP = Inr 1"
    using getreg_setreg_other [OF 3(6), of REG_TRAP] by (simp add: reg_defs)
  then have "trap_flag s3"
    by (simp add: trap_flag_def)
  moreover have "t = 0 \<Longrightarrow> \<not> trap_flag s"
    using 3(1,2) by (auto simp: trap_flag_def getreg_def dsi_def split: option.splits)
  ultimately show ?case
    using 3(3) by (auto simp: trap_jmp_measure_def trap_defs)
next
  case (4 s addr)
  then show ?case
    by (simp add: trap_jmp_measure_def trap_defs)
qed

subsection \<open>Conditional jumps\<close>

definition jmpeq :: "cpu \<Rightarrow> int \<Rightarrow> int \<Rightarrow> int \<Rightarrow> exn + cpu" where
  "jmpeq s reg1 reg2 addr =
     thn (getreg s reg1) (\<lambda>a. thn (getreg s reg2) (\<lambda>b.
       if a = b then jmp s addr else Inr s))"

definition jmpeqi :: "cpu \<Rightarrow> int \<Rightarrow> int \<Rightarrow> int \<Rightarrow> exn + cpu" where
  "jmpeqi s reg1 val addr =
     thn (setreg s REG_RESVD val) (\<lambda>s1. jmpeq s1 reg1 REG_RESVD addr)"

definition jmpne :: "cpu \<Rightarrow> int \<Rightarrow> int \<Rightarrow> int \<Rightarrow> exn + cpu" where
  "jmpne s reg1 reg2 addr =
     thn (getreg s reg1) (\<lambda>a. thn (getreg s reg2) (\<lambda>b.
       if a \<noteq> b then jmp s addr else Inr s))"

definition jmpnei :: "cpu \<Rightarrow> int \<Rightarrow> int \<Rightarrow> int \<Rightarrow> exn + cpu" where
  "jmpnei s reg1 val addr =
     thn (setreg s REG_RESVD val) (\<lambda>s1. jmpne s1 reg1 REG_RESVD addr)"

definition jmpgt :: "cpu \<Rightarrow> int \<Rightarrow> int \<Rightarrow> int \<Rightarrow> exn + cpu" where
  "jmpgt s reg1 reg2 addr =
     thn (getreg s reg1) (\<lambda>a. thn (getreg s reg2) (\<lambda>b.
       if a > b then jmp s addr else Inr s))"

definition jmpgti :: "cpu \<Rightarrow> int \<Rightarrow> int \<Rightarrow> int \<Rightarrow> exn + cpu" where
  "jmpgti s reg1 val addr =
     thn (setreg s REG_RESVD val) (\<lambda>s1. jmpgt s1 reg1 REG_RESVD addr)"

definition jmpge :: "cpu \<Rightarrow> int \<Rightarrow> int \<Rightarrow> int \<Rightarrow> exn + cpu" where
  "jmpge s reg1 reg2 addr =
     thn (getreg s reg1) (\<lambda>a. thn (getreg s reg2) (\<lambda>b.
       if a \<ge> b then jmp s addr else Inr s))"

definition jmpgei :: "cpu \<Rightarrow> int \<Rightarrow> int \<Rightarrow> int \<Rightarrow> exn + cpu" where
  "jmpgei s reg1 val addr =
     thn (setreg s REG_RESVD val) (\<lambda>s1. jmpge s1 reg1 REG_RESVD addr)"

definition jmplt :: "cpu \<Rightarrow> int \<Rightarrow> int \<Rightarrow> int \<Rightarrow> exn + cpu" where
  "jmplt s reg1 reg2 addr =
     thn (getreg s reg1) (\<lambda>a. thn (getreg s reg2) (\<lambda>b.
       if a < b then jmp s addr else Inr s))"

definition jmplti :: "cpu \<Rightarrow> int \<Rightarrow> int \<Rightarrow> int \<Rightarrow> exn + cpu" where
  "jmplti s reg1 val addr =
     thn (setreg s REG_RESVD val) (\<lambda>s1. jmplt s1 reg1 REG_RESVD addr)"

definition jmple :: "cpu \<Rightarrow> int \<Rightarrow> int \<Rightarrow> int \<Rightarrow> exn + cpu" where
  "jmple s reg1 reg2 addr =
     thn (getreg s reg1) (\<lambda>a. thn (getreg s reg2) (\<lambda>b.
       if a \<le> b then jmp s addr else Inr s))"

definition jmplei :: "cpu \<Rightarrow> int \<Rightarrow> int \<Rightarrow> int \<Rightarrow> exn + cpu" where
  "jmplei s reg1 val addr =
     thn (setreg s REG_RESVD val) (\<lambda>s1. jmple s1 reg1 REG_RESVD addr)"

subsection \<open>Arithmetic\<close>

definition add :: "cpu \<Rightarrow> int \<Rightarrow> int \<Rightarrow> int \<Rightarrow> exn + cpu" where
  "add s reg1 reg2 reg3 =
     thn (getreg s reg1) (\<lambda>a. thn (getreg s reg2) (\<lambda>b.
       let result = a + b in
       thn (setreg s reg3 (result mod MAXVAL)) (\<lambda>s1.
       setreg s1 REG_CARRY (if result > MAXVAL then 1 else 0))))"

definition addi :: "cpu \<Rightarrow> int \<Rightarrow> int \<Rightarrow> int \<Rightarrow> exn + cpu" where
  "addi s reg1 val reg2 =
     thn (setreg s REG_RESVD val) (\<lambda>s1. add s1 reg1 REG_RESVD reg2)"

definition sub :: "cpu \<Rightarrow> int \<Rightarrow> int \<Rightarrow> int \<Rightarrow> exn + cpu" where
  "sub s reg1 reg2 reg3 =
     thn (getreg s reg1) (\<lambda>a. thn (getreg s reg2) (\<lambda>b.
       let result = a - b in
       thn (setreg s reg3 (result mod MINVAL)) (\<lambda>s1.
       setreg s1 REG_CARRY (if result < MINVAL then 1 else 0))))"

definition subi :: "cpu \<Rightarrow> int \<Rightarrow> int \<Rightarrow> int \<Rightarrow> exn + cpu" where
  "subi s reg1 val reg2 =
     thn (setreg s REG_RESVD val) (\<lambda>s1. sub s1 reg1 REG_RESVD reg2)"

definition mul :: "cpu \<Rightarrow> int \<Rightarrow> int \<Rightarrow> int \<Rightarrow> exn + cpu" where
  "mul s reg1 reg2 reg3 =
     thn (getreg s reg1) (\<lambda>a. thn (getreg s reg2) (\<lambda>b.
       let result = a * b in
       thn (setreg s reg3 (result mod MAXVAL)) (\<lambda>s1.
       setreg s1 REG_CARRY (if result > MAXVAL then 1 else 0))))"

definition muli :: "cpu \<Rightarrow> int \<Rightarrow> int \<Rightarrow> int \<Rightarrow> exn + cpu" where
  "muli s reg1 val reg2 =
     thn (setreg s REG_RESVD val) (\<lambda>s1. mul s1 reg1 REG_RESVD reg2)"

text \<open>
  \<open>div\<close> reads the divisor first; when it is 0 it calls \<open>trap(TRAP_DIV)\<close> and returns
  without touching any register itself.
\<close>

definition div_op :: "cpu \<Rightarrow> int \<Rightarrow> int \<Rightarrow> int \<Rightarrow> exn + cpu" where
  "div_op s reg1 reg2 reg3 =
     thn (getreg s reg2) (\<lambda>d.
       if d = 0 then trap s TRAP_DIV
       else
         thn (getreg s reg1) (\<lambda>a. thn (getreg s reg2) (\<lambda>b.
           let result = a div b in
           thn (setreg s reg3 result) (\<lambda>s1.
           setreg s1 REG_CARRY 0))))"

definition divi :: "cpu \<Rightarrow> int \<Rightarrow> int \<Rightarrow> int \<Rightarrow> exn + cpu" where
  "divi s reg1 val reg2 =
     thn (setreg s REG_RESVD val) (\<lambda>s1. div_op s1 reg1 REG_RESVD reg2)"

subsection \<open>Loads and stores\<close>

text \<open>
  \<open>loadw\<close> builds the word in the destination register itself: one plain assignment
  and three \<open>|=\<close>, each of which reads the register again.
\<close>

definition loadw :: "cpu \<Rightarrow> int \<Rightarrow> int \<Rightarrow> exn + cpu" where
  "loadw s reg1 addr =
     (if addr + 3 > MAXVAL then trap s TRAP_ILL
      else
        thn (getmem s addr) (\<lambda>b0.
        thn (setreg s reg1 (push_bit 24 b0)) (\<lambda>s1.
        thn (getreg s1 reg1) (\<lambda>v1.
        thn (getmem s1 (addr + 1)) (\<lambda>b1.
        thn (setreg s1 reg1 (v1 OR push_bit 16 b1)) (\<lambda>s2.
        thn (getreg s2 reg1) (\<lambda>v2.
        thn (getmem s2 (addr + 2)) (\<lambda>b2.
        thn (setreg s2 reg1 (v2 OR push_bit 8 b2)) (\<lambda>s3.
        thn (getreg s3 reg1) (\<lambda>v3.
        thn (getmem s3 (addr + 3)) (\<lambda>b3.
        setreg s3 reg1 (v3 OR b3))))))))))))"

definition loadwr :: "cpu \<Rightarrow> int \<Rightarrow> int \<Rightarrow> exn + cpu" where
  "loadwr s reg1 reg2 = thn (getreg s reg2) (\<lambda>a. loadw s reg1 a)"

definition loadwi :: "cpu \<Rightarrow> int \<Rightarrow> int \<Rightarrow> exn + cpu" where
  "loadwi s reg1 val = setreg s reg1 val"

definition savew :: "cpu \<Rightarrow> int \<Rightarrow> int \<Rightarrow> exn + cpu" where
  "savew s reg1 addr =
     (if addr + 3 > MAXVAL then trap s TRAP_ILL
      else
        thn (getreg s reg1) (\<lambda>v0.
        thn (setmem s addr (drop_bit 24 v0 AND 0xff)) (\<lambda>s1.
        thn (getreg s1 reg1) (\<lambda>v1.
        thn (setmem s1 (addr + 1) (drop_bit 16 v1 AND 0xff)) (\<lambda>s2.
        thn (getreg s2 reg1) (\<lambda>v2.
        thn (setmem s2 (addr + 2) (drop_bit 8 v2 AND 0xff)) (\<lambda>s3.
        thn (getreg s3 reg1) (\<lambda>v3.
        setmem s3 (addr + 3) (v3 AND 0xff)))))))))"

definition savewr :: "cpu \<Rightarrow> int \<Rightarrow> int \<Rightarrow> exn + cpu" where
  "savewr s reg1 reg2 = thn (getreg s reg2) (\<lambda>a. savew s reg1 a)"

definition savewi :: "cpu \<Rightarrow> int \<Rightarrow> int \<Rightarrow> exn + cpu" where
  "savewi s val addr =
     thn (setreg s REG_RESVD val) (\<lambda>s1. savew s1 REG_RESVD addr)"

definition loadb :: "cpu \<Rightarrow> int \<Rightarrow> int \<Rightarrow> exn + cpu" where
  "loadb s reg1 addr = thn (getmem s addr) (\<lambda>b. setreg s reg1 b)"

definition loadbr :: "cpu \<Rightarrow> int \<Rightarrow> int \<Rightarrow> exn + cpu" where
  "loadbr s reg1 reg2 = thn (getreg s reg2) (\<lambda>a. loadb s reg1 a)"

definition loadbi :: "cpu \<Rightarrow> int \<Rightarrow> int \<Rightarrow> exn + cpu" where
  "loadbi s reg1 val = setreg s reg1 (val AND 0xff)"

definition saveb :: "cpu \<Rightarrow> int \<Rightarrow> int \<Rightarrow> exn + cpu" where
  "saveb s reg1 addr = thn (getreg s reg1) (\<lambda>v. setmem s addr (v AND 0xff))"

definition savebr :: "cpu \<Rightarrow> int \<Rightarrow> int \<Rightarrow> exn + cpu" where
  "savebr s reg1 reg2 = thn (getreg s reg2) (\<lambda>a. saveb s reg1 a)"

definition savebi :: "cpu \<Rightarrow> int \<Rightarrow> int \<Rightarrow> exn + cpu" where
  "savebi s val addr =
     thn (setreg s REG_RESVD val) (\<lambda>s1. saveb s1 REG_RESVD addr)"

subsection \<open>Control, interrupts\<close>

definition nop :: "cpu \<Rightarrow> exn + cpu" where
  "nop s = Inr s"

text \<open>\<open>halt\<close> prints the registers and the memory, joins the threads and calls \<open>quit()\<close>.\<close>

definition halt :: "cpu \<Rightarrow> exn + cpu" where
  "halt s = Inl SystemExit"

definition intr :: "cpu \<Rightarrow> exn + cpu" where
  "intr s =
     (if intr_mask s then Inr (s\<lparr>intr_pending := True\<rparr>)
      else trap (s\<lparr>intr_pending := False\<rparr>) TRAP_INTR)"

definition eni :: "cpu \<Rightarrow> exn + cpu" where
  "eni s =
     (let s1 = s\<lparr>intr_mask := False\<rparr> in
      if intr_pending s1 then intr s1 else Inr s1)"

definition ret :: "cpu \<Rightarrow> exn + cpu" where
  "ret s =
     thn (setreg s REG_TRAP 0) (\<lambda>s1.
     thn (getreg s1 REG_RET) (\<lambda>r.
     thn (setreg s1 REG_PC r) (\<lambda>s2.
     eni s2)))"

text \<open>
  \<open>wait\<close> returns at once when the event is set and suspends the caller otherwise.
\<close>

definition wait :: "cpu \<Rightarrow> exn + cpu" where
  "wait s = (if intr_event s then Inr s else Inl Blocks)"

text \<open>\<open>swap\<close> as the source has it: the second statement stores \<open>reg2\<close> itself.\<close>

definition swap :: "cpu \<Rightarrow> int \<Rightarrow> int \<Rightarrow> exn + cpu" where
  "swap s reg1 reg2 =
     thn (getreg s reg1) (\<lambda>temp.
     thn (setreg s reg1 reg2) (\<lambda>s1.
     setreg s1 reg2 temp))"

definition copy :: "cpu \<Rightarrow> int \<Rightarrow> int \<Rightarrow> exn + cpu" where
  "copy s reg1 reg2 = thn (getreg s reg2) (\<lambda>v. setreg s reg1 v)"

subsection \<open>Logic and shifts\<close>

definition and_op :: "cpu \<Rightarrow> int \<Rightarrow> int \<Rightarrow> int \<Rightarrow> exn + cpu" where
  "and_op s reg1 reg2 reg3 =
     thn (getreg s reg1) (\<lambda>a. thn (getreg s reg2) (\<lambda>b. setreg s reg3 (a AND b)))"

definition andi :: "cpu \<Rightarrow> int \<Rightarrow> int \<Rightarrow> int \<Rightarrow> exn + cpu" where
  "andi s reg1 val reg2 = thn (getreg s reg1) (\<lambda>a. setreg s reg2 (a AND val))"

definition or_op :: "cpu \<Rightarrow> int \<Rightarrow> int \<Rightarrow> int \<Rightarrow> exn + cpu" where
  "or_op s reg1 reg2 reg3 =
     thn (getreg s reg1) (\<lambda>a. thn (getreg s reg2) (\<lambda>b. setreg s reg3 (a OR b)))"

definition ori :: "cpu \<Rightarrow> int \<Rightarrow> int \<Rightarrow> int \<Rightarrow> exn + cpu" where
  "ori s reg1 val reg2 = thn (getreg s reg1) (\<lambda>a. setreg s reg2 (a OR val))"

definition xor_op :: "cpu \<Rightarrow> int \<Rightarrow> int \<Rightarrow> int \<Rightarrow> exn + cpu" where
  "xor_op s reg1 reg2 reg3 =
     thn (getreg s reg1) (\<lambda>a. thn (getreg s reg2) (\<lambda>b. setreg s reg3 (a XOR b)))"

definition xori :: "cpu \<Rightarrow> int \<Rightarrow> int \<Rightarrow> int \<Rightarrow> exn + cpu" where
  "xori s reg1 val reg2 = thn (getreg s reg1) (\<lambda>a. setreg s reg2 (a XOR val))"

definition not_op :: "cpu \<Rightarrow> int \<Rightarrow> int \<Rightarrow> exn + cpu" where
  "not_op s reg1 reg2 = thn (getreg s reg1) (\<lambda>a. setreg s reg2 (NOT a))"

text \<open>
  Python's \<open><<\<close> and \<open>>>\<close> (CPython 3.8 and later) raise ValueError on a negative
  shift count. After that test \<open><<\<close> returns 0 for the value 0 whatever the count;
  for any other value the result has \<open>count\<close> more bits than the value, and the
  interpreter raises OverflowError or MemoryError when it cannot build an integer of
  that length. \<open>>>\<close> by a count of any size returns the floor of the quotient.
  \<open>bit_length\<close> is Python's \<open>int.bit_length\<close>: the number of bits of the absolute
  value.
\<close>

fun bits_nat :: "nat \<Rightarrow> nat" where
  "bits_nat n = (if n = 0 then 0 else Suc (bits_nat (n div 2)))"

definition bit_length :: "int \<Rightarrow> nat" where
  "bit_length v = bits_nat (nat \<bar>v\<bar>)"

definition py_shl :: "host \<Rightarrow> int \<Rightarrow> int \<Rightarrow> exn + int" where
  "py_shl h a n =
     (if n < 0 then Inl ValueError
      else if a = 0 then Inr 0
      else case h (bit_length a + nat n) of
          Some e \<Rightarrow> Inl e
        | None \<Rightarrow> Inr (push_bit (nat n) a))"

definition py_shr :: "int \<Rightarrow> int \<Rightarrow> exn + int" where
  "py_shr a n = (if n < 0 then Inl ValueError else Inr (drop_bit (nat n) a))"

definition shl :: "host \<Rightarrow> cpu \<Rightarrow> int \<Rightarrow> int \<Rightarrow> int \<Rightarrow> exn + cpu" where
  "shl h s reg1 reg2 reg3 =
     thn (getreg s reg1) (\<lambda>a. thn (getreg s reg2) (\<lambda>n.
       thn (py_shl h a n) (\<lambda>v. setreg s reg3 v)))"

definition shli :: "host \<Rightarrow> cpu \<Rightarrow> int \<Rightarrow> int \<Rightarrow> int \<Rightarrow> exn + cpu" where
  "shli h s reg1 val reg2 =
     thn (getreg s reg1) (\<lambda>a. thn (py_shl h a val) (\<lambda>v. setreg s reg2 v))"

definition shr :: "cpu \<Rightarrow> int \<Rightarrow> int \<Rightarrow> int \<Rightarrow> exn + cpu" where
  "shr s reg1 reg2 reg3 =
     thn (getreg s reg1) (\<lambda>a. thn (getreg s reg2) (\<lambda>n.
       thn (py_shr a n) (\<lambda>v. setreg s reg3 v)))"

definition shri :: "cpu \<Rightarrow> int \<Rightarrow> int \<Rightarrow> int \<Rightarrow> exn + cpu" where
  "shri s reg1 val reg2 =
     thn (getreg s reg1) (\<lambda>a. thn (py_shr a val) (\<lambda>v. setreg s reg2 v))"

subsection \<open>The instruction table and the decoder\<close>

datatype argkind = IA_NONE | IA_IMMED | IA_ADDR | IA_REG

text \<open>
  The table holds the functions themselves; here each entry names its function by a
  constructor, and \<open>call_instr\<close> is the call \<open>instr_fn(self, *arglist)\<close>: the function
  applied to the arguments in order, TypeError when their number is not the function's.
  The host is handed down to the two left shifts.
\<close>

datatype instr =
    I_nop | I_savew | I_savewr | I_savewi | I_loadw | I_loadwr | I_loadwi | I_saveb
  | I_savebr | I_savebi | I_loadb | I_loadbr | I_loadbi | I_add | I_sub | I_mul
  | I_div | I_addi | I_subi | I_muli | I_divi | I_jmp | I_jmpeq | I_jmpne
  | I_jmplt | I_jmpgt | I_jmple | I_jmpge | I_jmpeqi | I_jmpnei | I_jmplti | I_jmpgti
  | I_jmplei | I_jmpgei | I_halt | I_intr | I_ret | I_eni | I_dsi | I_wait
  | I_swap | I_copy | I_and | I_or | I_xor | I_andi | I_ori | I_xori
  | I_not | I_shl | I_shr | I_shli | I_shri

definition INSTRS :: "((argkind \<times> argkind \<times> argkind) \<times> instr) list" where
  "INSTRS =
    [((IA_NONE, IA_NONE, IA_NONE), I_nop),
     ((IA_REG, IA_ADDR, IA_NONE), I_savew),
     ((IA_REG, IA_REG, IA_NONE), I_savewr),
     ((IA_IMMED, IA_ADDR, IA_NONE), I_savewi),
     ((IA_REG, IA_ADDR, IA_NONE), I_loadw),
     ((IA_REG, IA_REG, IA_NONE), I_loadwr),
     ((IA_REG, IA_IMMED, IA_NONE), I_loadwi),
     ((IA_REG, IA_ADDR, IA_NONE), I_saveb),
     ((IA_REG, IA_REG, IA_NONE), I_savebr),
     ((IA_IMMED, IA_ADDR, IA_NONE), I_savebi),
     ((IA_REG, IA_ADDR, IA_NONE), I_loadb),
     ((IA_REG, IA_REG, IA_NONE), I_loadbr),
     ((IA_REG, IA_IMMED, IA_NONE), I_loadbi),
     ((IA_REG, IA_REG, IA_REG), I_add),
     ((IA_REG, IA_REG, IA_REG), I_sub),
     ((IA_REG, IA_REG, IA_REG), I_mul),
     ((IA_REG, IA_REG, IA_REG), I_div),
     ((IA_REG, IA_IMMED, IA_REG), I_addi),
     ((IA_REG, IA_IMMED, IA_REG), I_subi),
     ((IA_REG, IA_IMMED, IA_REG), I_muli),
     ((IA_REG, IA_IMMED, IA_REG), I_divi),
     ((IA_ADDR, IA_NONE, IA_NONE), I_jmp),
     ((IA_REG, IA_REG, IA_ADDR), I_jmpeq),
     ((IA_REG, IA_REG, IA_ADDR), I_jmpne),
     ((IA_REG, IA_REG, IA_ADDR), I_jmplt),
     ((IA_REG, IA_REG, IA_ADDR), I_jmpgt),
     ((IA_REG, IA_REG, IA_ADDR), I_jmple),
     ((IA_REG, IA_REG, IA_ADDR), I_jmpge),
     ((IA_REG, IA_IMMED, IA_ADDR), I_jmpeqi),
     ((IA_REG, IA_IMMED, IA_ADDR), I_jmpnei),
     ((IA_REG, IA_IMMED, IA_ADDR), I_jmplti),
     ((IA_REG, IA_IMMED, IA_ADDR), I_jmpgti),
     ((IA_REG, IA_IMMED, IA_ADDR), I_jmplei),
     ((IA_REG, IA_IMMED, IA_ADDR), I_jmpgei),
     ((IA_NONE, IA_NONE, IA_NONE), I_halt),
     ((IA_NONE, IA_NONE, IA_NONE), I_intr),
     ((IA_NONE, IA_NONE, IA_NONE), I_ret),
     ((IA_NONE, IA_NONE, IA_NONE), I_eni),
     ((IA_NONE, IA_NONE, IA_NONE), I_dsi),
     ((IA_NONE, IA_NONE, IA_NONE), I_wait),
     ((IA_REG, IA_REG, IA_NONE), I_swap),
     ((IA_REG, IA_REG, IA_NONE), I_copy),
     ((IA_REG, IA_REG, IA_REG), I_and),
     ((IA_REG, IA_REG, IA_REG), I_or),
     ((IA_REG, IA_REG, IA_REG), I_xor),
     ((IA_REG, IA_IMMED, IA_REG), I_andi),
     ((IA_REG, IA_IMMED, IA_REG), I_ori),
     ((IA_REG, IA_IMMED, IA_REG), I_xori),
     ((IA_REG, IA_REG, IA_NONE), I_not),
     ((IA_REG, IA_REG, IA_REG), I_shl),
     ((IA_REG, IA_REG, IA_REG), I_shr),
     ((IA_REG, IA_IMMED, IA_REG), I_shli),
     ((IA_REG, IA_IMMED, IA_REG), I_shri)]"

definition call_instr :: "host \<Rightarrow> instr \<Rightarrow> int list \<Rightarrow> cpu \<Rightarrow> exn + cpu" where
  "call_instr h f arglist s = (case f of
       I_nop \<Rightarrow> (case arglist of [] \<Rightarrow> nop s | _ \<Rightarrow> Inl TypeError)
     | I_savew \<Rightarrow> (case arglist of [a, b] \<Rightarrow> savew s a b | _ \<Rightarrow> Inl TypeError)
     | I_savewr \<Rightarrow> (case arglist of [a, b] \<Rightarrow> savewr s a b | _ \<Rightarrow> Inl TypeError)
     | I_savewi \<Rightarrow> (case arglist of [a, b] \<Rightarrow> savewi s a b | _ \<Rightarrow> Inl TypeError)
     | I_loadw \<Rightarrow> (case arglist of [a, b] \<Rightarrow> loadw s a b | _ \<Rightarrow> Inl TypeError)
     | I_loadwr \<Rightarrow> (case arglist of [a, b] \<Rightarrow> loadwr s a b | _ \<Rightarrow> Inl TypeError)
     | I_loadwi \<Rightarrow> (case arglist of [a, b] \<Rightarrow> loadwi s a b | _ \<Rightarrow> Inl TypeError)
     | I_saveb \<Rightarrow> (case arglist of [a, b] \<Rightarrow> saveb s a b | _ \<Rightarrow> Inl TypeError)
     | I_savebr \<Rightarrow> (case arglist of [a, b] \<Rightarrow> savebr s a b | _ \<Rightarrow> Inl TypeError)
     | I_savebi \<Rightarrow> (case arglist of [a, b] \<Rightarrow> savebi s a b | _ \<Rightarrow> Inl TypeError)
     | I_loadb \<Rightarrow> (case arglist of [a, b] \<Rightarrow> loadb s a b | _ \<Rightarrow> Inl TypeError)
     | I_loadbr \<Rightarrow> (case arglist of [a, b] \<Rightarrow> loadbr s a b | _ \<Rightarrow> Inl TypeError)
     | I_loadbi \<Rightarrow> (case arglist of [a, b] \<Rightarrow> loadbi s a b | _ \<Rightarrow> Inl TypeError)
     | I_add \<Rightarrow> (case arglist of [a, b, c] \<Rightarrow> add s a b c | _ \<Rightarrow> Inl TypeError)
     | I_sub \<Rightarrow> (case arglist of [a, b, c] \<Rightarrow> sub s a b c | _ \<Rightarrow> Inl TypeError)
     | I_mul \<Rightarrow> (case arglist of [a, b, c] \<Rightarrow> mul s a b c | _ \<Rightarrow> Inl TypeError)
     | I_div \<Rightarrow> (case arglist of [a, b, c] \<Rightarrow> div_op s a b c | _ \<Rightarrow> Inl TypeError)
     | I_addi \<Rightarrow> (case arglist of [a, b, c] \<Rightarrow> addi s a b c | _ \<Rightarrow> Inl TypeError)
     | I_subi \<Rightarrow> (case arglist of [a, b, c] \<Rightarrow> subi s a b c | _ \<Rightarrow> Inl TypeError)
     | I_muli \<Rightarrow> (case arglist of [a, b, c] \<Rightarrow> muli s a b c | _ \<Rightarrow> Inl TypeError)
     | I_divi \<Rightarrow> (case arglist of [a, b, c] \<Rightarrow> divi s a b c | _ \<Rightarrow> Inl TypeError)
     | I_jmp \<Rightarrow> (case arglist of [a] \<Rightarrow> jmp s a | _ \<Rightarrow> Inl TypeError)
     | I_jmpeq \<Rightarrow> (case arglist of [a, b, c] \<Rightarrow> jmpeq s a b c | _ \<Rightarrow> Inl TypeError)
     | I_jmpne \<Rightarrow> (case arglist of [a, b, c] \<Rightarrow> jmpne s a b c | _ \<Rightarrow> Inl TypeError)
     | I_jmplt \<Rightarrow> (case arglist of [a, b, c] \<Rightarrow> jmplt s a b c | _ \<Rightarrow> Inl TypeError)
     | I_jmpgt \<Rightarrow> (case arglist of [a, b, c] \<Rightarrow> jmpgt s a b c | _ \<Rightarrow> Inl TypeError)
     | I_jmple \<Rightarrow> (case arglist of [a, b, c] \<Rightarrow> jmple s a b c | _ \<Rightarrow> Inl TypeError)
     | I_jmpge \<Rightarrow> (case arglist of [a, b, c] \<Rightarrow> jmpge s a b c | _ \<Rightarrow> Inl TypeError)
     | I_jmpeqi \<Rightarrow> (case arglist of [a, b, c] \<Rightarrow> jmpeqi s a b c | _ \<Rightarrow> Inl TypeError)
     | I_jmpnei \<Rightarrow> (case arglist of [a, b, c] \<Rightarrow> jmpnei s a b c | _ \<Rightarrow> Inl TypeError)
     | I_jmplti \<Rightarrow> (case arglist of [a, b, c] \<Rightarrow> jmplti s a b c | _ \<Rightarrow> Inl TypeError)
     | I_jmpgti \<Rightarrow> (case arglist of [a, b, c] \<Rightarrow> jmpgti s a b c | _ \<Rightarrow> Inl TypeError)
     | I_jmplei \<Rightarrow> (case arglist of [a, b, c] \<Rightarrow> jmplei s a b c | _ \<Rightarrow> Inl TypeError)
     | I_jmpgei \<Rightarrow> (case arglist of [a, b, c] \<Rightarrow> jmpgei s a b c | _ \<Rightarrow> Inl TypeError)
     | I_halt \<Rightarrow> (case arglist of [] \<Rightarrow> halt s | _ \<Rightarrow> Inl TypeError)
     | I_intr \<Rightarrow> (case arglist of [] \<Rightarrow> intr s | _ \<Rightarrow> Inl TypeError)
     | I_ret \<Rightarrow> (case arglist of [] \<Rightarrow> ret s | _ \<Rightarrow> Inl TypeError)
     | I_eni \<Rightarrow> (case arglist of [] \<Rightarrow> eni s | _ \<Rightarrow> Inl TypeError)
     | I_dsi \<Rightarrow> (case arglist of [] \<Rightarrow> Inr (dsi s) | _ \<Rightarrow> Inl TypeError)
     | I_wait \<Rightarrow> (case arglist of [] \<Rightarrow> wait s | _ \<Rightarrow> Inl TypeError)
     | I_swap \<Rightarrow> (case arglist of [a, b] \<Rightarrow> swap s a b | _ \<Rightarrow> Inl TypeError)
     | I_copy \<Rightarrow> (case arglist of [a, b] \<Rightarrow> copy s a b | _ \<Rightarrow> Inl TypeError)
     | I_and \<Rightarrow> (case arglist of [a, b, c] \<Rightarrow> and_op s a b c | _ \<Rightarrow> Inl TypeError)
     | I_or \<Rightarrow> (case arglist of [a, b, c] \<Rightarrow> or_op s a b c | _ \<Rightarrow> Inl TypeError)
     | I_xor \<Rightarrow> (case arglist of [a, b, c] \<Rightarrow> xor_op s a b c | _ \<Rightarrow> Inl TypeError)
     | I_andi \<Rightarrow> (case arglist of [a, b, c] \<Rightarrow> andi s a b c | _ \<Rightarrow> Inl TypeError)
     | I_ori \<Rightarrow> (case arglist of [a, b, c] \<Rightarrow> ori s a b c | _ \<Rightarrow> Inl TypeError)
     | I_xori \<Rightarrow> (case arglist of [a, b, c] \<Rightarrow> xori s a b c | _ \<Rightarrow> Inl TypeError)
     | I_not \<Rightarrow> (case arglist of [a, b] \<Rightarrow> not_op s a b | _ \<Rightarrow> Inl TypeError)
     | I_shl \<Rightarrow> (case arglist of [a, b, c] \<Rightarrow> shl h s a b c | _ \<Rightarrow> Inl TypeError)
     | I_shr \<Rightarrow> (case arglist of [a, b, c] \<Rightarrow> shr s a b c | _ \<Rightarrow> Inl TypeError)
     | I_shli \<Rightarrow> (case arglist of [a, b, c] \<Rightarrow> shli h s a b c | _ \<Rightarrow> Inl TypeError)
     | I_shri \<Rightarrow> (case arglist of [a, b, c] \<Rightarrow> shri s a b c | _ \<Rightarrow> Inl TypeError))"

text \<open>
  The loop over \<open>zip(instr_type, (op1, op2, op3))\<close>: \<open>None\<close> is the early
  \<open>return self.trap(TRAP_ILL)\<close> on a register operand above \<open>REG_RESVD\<close>, \<open>Some\<close>
  the argument list at the end of the loop.
\<close>

fun typecheck :: "(argkind \<times> int) list \<Rightarrow> int list \<Rightarrow> int list option" where
  "typecheck [] arglist = Some arglist"
| "typecheck ((argtype, arg) # rest) arglist =
     (if argtype = IA_NONE then typecheck rest arglist
      else if argtype = IA_REG \<and> arg > REG_RESVD then None
      else typecheck rest (arglist @ [arg]))"

text \<open>
  One of the four identical groups of statements at the head of \<open>decode_next_instr\<close>:
  load the word at PC into the scratch register, read it back, add 4 to PC.
\<close>

definition fetch_word :: "cpu \<Rightarrow> exn + (int \<times> cpu)" where
  "fetch_word s =
     thn (getreg s REG_PC) (\<lambda>pc.
     thn (loadw s REG_RESVD pc) (\<lambda>s1.
     thn (getreg s1 REG_RESVD) (\<lambda>w.
     thn (getreg s1 REG_PC) (\<lambda>pc1.
     thn (setreg s1 REG_PC (pc1 + 4)) (\<lambda>s2.
     Inr (w, s2))))))"

text \<open>
  The part of \<open>decode_next_instr\<close> after the four words are read. The table is a Python
  list, so an opcode below 0 that passes the length test is subscripted from the end.
\<close>

definition dispatch :: "host \<Rightarrow> cpu \<Rightarrow> int \<Rightarrow> int \<Rightarrow> int \<Rightarrow> int \<Rightarrow> exn + cpu" where
  "dispatch h s opcode op1 op2 op3 =
     (if opcode \<ge> int (length INSTRS) then trap s TRAP_ILL
      else case py_index (length INSTRS) opcode of
          None \<Rightarrow> Inl IndexError
        | Some k \<Rightarrow>
            (case INSTRS ! k of ((t1, t2, t3), instr_fn) \<Rightarrow>
              (case typecheck [(t1, op1), (t2, op2), (t3, op3)] [] of
                  None \<Rightarrow> trap s TRAP_ILL
                | Some arglist \<Rightarrow> call_instr h instr_fn arglist s)))"

definition decode_next_instr :: "host \<Rightarrow> cpu \<Rightarrow> exn + cpu" where
  "decode_next_instr h s =
     thn (fetch_word s) (\<lambda>(opcode, s1).
     thn (fetch_word s1) (\<lambda>(op1, s2).
     thn (fetch_word s2) (\<lambda>(op2, s3).
     thn (fetch_word s3) (\<lambda>(op3, s4).
     dispatch h s4 opcode op1 op2 op3))))"

section \<open>Basic facts about the model\<close>

declare trap.simps [simp del] jmp.simps [simp del]

lemma py_index_in: "0 \<le> i \<Longrightarrow> i < int n \<Longrightarrow> py_index n i = Some (nat i)"
  by (simp add: py_index_def)

lemma getreg_in:
  "0 \<le> r \<Longrightarrow> r < int (length (registers s)) \<Longrightarrow> getreg s r = Inr (registers s ! nat r)"
  by (simp add: getreg_def py_index_in)

lemma setreg_in:
  "0 \<le> r \<Longrightarrow> r < int (length (registers s)) \<Longrightarrow>
   setreg s r v = Inr (s\<lparr>registers := (registers s)[nat r := v]\<rparr>)"
  by (simp add: setreg_def py_index_in)

lemma getmem_in:
  "0 \<le> a \<Longrightarrow> a < int (length (memory s)) \<Longrightarrow> getmem s a = Inr (memory s ! nat a)"
  by (simp add: getmem_def py_index_in)

lemma setmem_in:
  "0 \<le> a \<Longrightarrow> a < int (length (memory s)) \<Longrightarrow>
   setmem s a v = Inr (s\<lparr>memory := (memory s)[nat a := v]\<rparr>)"
  by (simp add: setmem_def py_index_in)

text \<open>
  What a call of \<open>trap\<close> does to a register file of 33 slots, in closed form: the
  vector that ends up in PC is the double-trap vector when the TRAP register was already
  set (and the vector asked for is another one) or when the vector asked for is negative;
  RET receives the PC of the moment of the call.
\<close>

definition vector_taken :: "cpu \<Rightarrow> int \<Rightarrow> int" where
  "vector_taken s v =
     (if (registers s ! 5 \<noteq> 0 \<and> v \<noteq> TRAP_DTRAP) \<or> v < 0 then TRAP_DTRAP else v)"

definition trapped :: "cpu \<Rightarrow> int \<Rightarrow> cpu" where
  "trapped s pc = s\<lparr>registers := (registers s)[5 := 1, 4 := registers s ! 0, 0 := pc],
     intr_event := False, intr_mask := True\<rparr>"

lemma trap_DTRAP:
  assumes "length (registers s) = 33"
  shows "trap s TRAP_DTRAP = Inr (trapped s TRAP_DTRAP)"
  using assms
  apply (subst trap.simps)
  apply (subst jmp.simps)
  apply (simp add: Let_def dsi_def getreg_in setreg_in reg_defs trapped_def trap_defs)
  done

lemma trap_escalates:
  assumes "length (registers s) = 33" "registers s ! 5 \<noteq> 0" "v \<noteq> TRAP_DTRAP"
  shows "trap s v = Inr (trapped s TRAP_DTRAP)"
  using assms
  apply (subst trap.simps)
  apply (simp add: Let_def dsi_def getreg_in reg_defs trap_DTRAP)
  apply (simp add: trapped_def)
  done

lemma trap_plain:
  assumes "length (registers s) = 33" "registers s ! 5 = 0 \<or> v = TRAP_DTRAP" "0 \<le> v"
  shows "trap s v = Inr (trapped s v)"
  using assms
  apply (subst trap.simps)
  apply (subst jmp.simps)
  apply (auto simp add: Let_def dsi_def getreg_in setreg_in reg_defs trapped_def)
  done

lemma trap_negative:
  assumes "length (registers s) = 33" "registers s ! 5 = 0" "v < 0"
  shows "trap s v = Inr (trapped s TRAP_DTRAP)"
  using assms
  apply (subst trap.simps)
  apply (subst jmp.simps)
  apply (simp add: Let_def dsi_def getreg_in setreg_in reg_defs trap_escalates trap_defs)
  apply (simp add: trapped_def list_eq_iff_nth_eq nth_list_update)
  done

lemma trap_eq:
  assumes "length (registers s) = 33"
  shows "trap s v = Inr (trapped s (vector_taken s v))"
proof (cases "registers s ! 5 \<noteq> 0 \<and> v \<noteq> TRAP_DTRAP")
  case True
  with assms show ?thesis by (simp add: trap_escalates vector_taken_def)
next
  case no_escalation: False
  show ?thesis
  proof (cases "v < 0")
    case True
    with no_escalation have "registers s ! 5 = 0" by (auto simp: trap_defs)
    with assms True show ?thesis by (simp add: trap_negative vector_taken_def)
  next
    case False
    with no_escalation assms show ?thesis
      by (auto simp: trap_plain vector_taken_def)
  qed
qed


section \<open>The claims\<close>

subsection \<open>C2: a trap taken inside a trap handler\<close>

definition handler_state :: cpu where
  "handler_state = (init [])\<lparr>registers := (registers (init []))[0 := 0x120, 5 := 1]\<rparr>"

text \<open>
  C2. If \<open>trap(v)\<close> is called while the TRAP register is 1 and \<open>v\<close> is not the
  double-trap vector 0x40, then it returns with PC = 0x40, RET equal to the PC of the
  moment of the call, the TRAP register still 1 and interrupts masked.
\<close>

theorem trap_inside_trap:
  assumes "length (registers s) = 33"
    and "getreg s REG_TRAP = Inr 1"
    and "v \<noteq> TRAP_DTRAP"
  shows "\<exists>s'. trap s v = Inr s'
           \<and> getreg s' REG_PC = Inr 0x40
           \<and> getreg s' REG_RET = getreg s REG_PC
           \<and> getreg s' REG_TRAP = Inr 1
           \<and> intr_mask s'"
proof -
  from assms(1,2) have flag: "registers s ! 5 = 1"
    by (simp add: getreg_in reg_defs)
  with assms(3) have "vector_taken s v = TRAP_DTRAP"
    by (simp add: vector_taken_def)
  with assms(1) have "trap s v = Inr (trapped s TRAP_DTRAP)"
    by (simp add: trap_eq)
  moreover from assms(1) have "getreg (trapped s TRAP_DTRAP) REG_PC = Inr 0x40"
    by (simp add: trapped_def getreg_in reg_defs trap_defs)
  moreover from assms(1) have "getreg (trapped s TRAP_DTRAP) REG_RET = getreg s REG_PC"
    by (simp add: trapped_def getreg_in reg_defs)
  moreover from assms(1) have "getreg (trapped s TRAP_DTRAP) REG_TRAP = Inr 1"
    by (simp add: trapped_def getreg_in reg_defs)
  moreover have "intr_mask (trapped s TRAP_DTRAP)"
    by (simp add: trapped_def)
  ultimately show ?thesis by blast
qed

text \<open>
  The theorem at a state inside a handler (TRAP = 1, PC = 0x120) that raises the
  illegal-operation trap.
\<close>

theorem trap_inside_trap_witness:
  "length (registers handler_state) = 33
   \<and> getreg handler_state REG_TRAP = Inr 1
   \<and> TRAP_ILL \<noteq> TRAP_DTRAP
   \<and> (\<exists>s'. trap handler_state TRAP_ILL = Inr s'
           \<and> getreg s' REG_PC = Inr 0x40
           \<and> getreg s' REG_RET = Inr 0x120
           \<and> getreg s' REG_TRAP = Inr 1
           \<and> intr_mask s')"
proof -
  have len: "length (registers handler_state) = 33"
    by (simp add: handler_state_def init_def reg_defs)
  have flag: "getreg handler_state REG_TRAP = Inr 1"
    by (simp add: handler_state_def init_def reg_defs getreg_in)
  have vec: "TRAP_ILL \<noteq> TRAP_DTRAP"
    by (simp add: trap_defs)
  have pc: "getreg handler_state REG_PC = Inr 0x120"
    by (simp add: handler_state_def init_def reg_defs getreg_in)
  from trap_inside_trap [OF len flag vec] pc len flag vec show ?thesis
    by simp
qed

subsection \<open>C3: interrupts raised while masked\<close>

text \<open>\<open>n\<close> calls of \<open>intr\<close> in a row, as an interrupt source would make them.\<close>

fun intr_times :: "nat \<Rightarrow> cpu \<Rightarrow> exn + cpu" where
  "intr_times 0 s = Inr s"
| "intr_times (Suc n) s = thn (intr s) (intr_times n)"

definition masked_state :: cpu where
  "masked_state = dsi ((init [])\<lparr>registers := (registers (init []))[0 := 0x200]\<rparr>)"

lemma intr_masked: "intr_mask s \<Longrightarrow> intr s = Inr (s\<lparr>intr_pending := True\<rparr>)"
  by (simp add: intr_def)

lemma intr_times_masked:
  "intr_mask s \<Longrightarrow> intr_times (Suc n) s = Inr (s\<lparr>intr_pending := True\<rparr>)"
proof (induction n arbitrary: s)
  case 0
  then show ?case by (simp add: intr_masked)
next
  case (Suc n)
  have "intr_times (Suc (Suc n)) s = intr_times (Suc n) (s\<lparr>intr_pending := True\<rparr>)"
    using Suc.prems by (simp add: intr_masked)
  also have "\<dots> = Inr (s\<lparr>intr_pending := True\<rparr>)"
    using Suc.prems Suc.IH [of "s\<lparr>intr_pending := True\<rparr>"] by simp
  finally show ?case .
qed

text \<open>
  C3. From a state with interrupts masked and none pending, \<open>n \<ge> 1\<close> calls of
  \<open>intr\<close> leave \<open>intr_pending\<close> set and change nothing else. One \<open>eni\<close> after
  them, with TRAP = 0, is one call of \<open>trap(TRAP_INTR)\<close>: PC = 0x10, TRAP = 1, RET the
  old PC, nothing pending any more, so that a further \<open>eni\<close> delivers nothing.
\<close>

theorem deferred_interrupts_collapse:
  assumes "length (registers s) = 33"
    and "intr_mask s" and "\<not> intr_pending s"
    and "getreg s REG_TRAP = Inr 0"
    and "1 \<le> n"
  shows "intr_times n s = Inr (s\<lparr>intr_pending := True\<rparr>)
       \<and> (\<exists>s'. eni (s\<lparr>intr_pending := True\<rparr>) = Inr s'
              \<and> eni (s\<lparr>intr_pending := True\<rparr>)
                  = trap (s\<lparr>intr_mask := False, intr_pending := False\<rparr>) TRAP_INTR
              \<and> getreg s' REG_PC = Inr 0x10
              \<and> getreg s' REG_TRAP = Inr 1
              \<and> getreg s' REG_RET = getreg s REG_PC
              \<and> \<not> intr_pending s'
              \<and> eni s' = Inr (s'\<lparr>intr_mask := False\<rparr>))"
proof -
  from assms(5) obtain m where n: "n = Suc m"
    by (cases n) simp_all
  have collapse: "intr_times n s = Inr (s\<lparr>intr_pending := True\<rparr>)"
    using assms(2) unfolding n by (rule intr_times_masked)
  let ?u = "s\<lparr>intr_mask := False, intr_pending := False\<rparr>"
  have len: "length (registers ?u) = 33"
    using assms(1) by simp
  have flag: "registers s ! 5 = 0"
    using assms(1,4) by (simp add: getreg_in reg_defs)
  have deliver: "eni (s\<lparr>intr_pending := True\<rparr>) = trap ?u TRAP_INTR"
    by (simp add: eni_def intr_def Let_def)
  have vec: "vector_taken ?u TRAP_INTR = TRAP_INTR"
    using flag by (simp add: vector_taken_def trap_defs)
  have res: "trap ?u TRAP_INTR = Inr (trapped ?u TRAP_INTR)"
    using trap_eq [OF len, of TRAP_INTR] vec by simp
  have "getreg (trapped ?u TRAP_INTR) REG_PC = Inr 0x10"
    using assms(1) by (simp add: trapped_def getreg_in reg_defs trap_defs)
  moreover have "getreg (trapped ?u TRAP_INTR) REG_TRAP = Inr 1"
    using assms(1) by (simp add: trapped_def getreg_in reg_defs)
  moreover have "getreg (trapped ?u TRAP_INTR) REG_RET = getreg s REG_PC"
    using assms(1) by (simp add: trapped_def getreg_in reg_defs)
  moreover have "\<not> intr_pending (trapped ?u TRAP_INTR)"
    by (simp add: trapped_def)
  moreover have "eni (trapped ?u TRAP_INTR) = Inr ((trapped ?u TRAP_INTR)\<lparr>intr_mask := False\<rparr>)"
    by (simp add: eni_def Let_def trapped_def)
  ultimately show ?thesis
    using collapse deliver res by simp
qed

text \<open>The theorem after \<open>dsi\<close> at PC = 0x200, with three interrupts raised.\<close>

theorem deferred_interrupts_collapse_witness:
  "length (registers masked_state) = 33
   \<and> intr_mask masked_state \<and> \<not> intr_pending masked_state
   \<and> getreg masked_state REG_TRAP = Inr 0
   \<and> (1::nat) \<le> 3
   \<and> intr_times 3 masked_state = Inr (masked_state\<lparr>intr_pending := True\<rparr>)
   \<and> (\<exists>s'. eni (masked_state\<lparr>intr_pending := True\<rparr>) = Inr s'
          \<and> getreg s' REG_PC = Inr 0x10
          \<and> getreg s' REG_TRAP = Inr 1
          \<and> getreg s' REG_RET = Inr 0x200
          \<and> \<not> intr_pending s')"
proof -
  have len: "length (registers masked_state) = 33"
    by (simp add: masked_state_def dsi_def init_def reg_defs)
  have mask: "intr_mask masked_state"
    by (simp add: masked_state_def dsi_def)
  have pend: "\<not> intr_pending masked_state"
    by (simp add: masked_state_def dsi_def init_def)
  have flag: "getreg masked_state REG_TRAP = Inr 0"
    by (simp add: masked_state_def dsi_def init_def reg_defs getreg_in)
  have pc: "getreg masked_state REG_PC = Inr 0x200"
    by (simp add: masked_state_def dsi_def init_def reg_defs getreg_in)
  have n: "(1::nat) \<le> 3"
    by simp
  from deferred_interrupts_collapse [OF len mask pend flag n] pc len mask pend flag
  show ?thesis by auto
qed

subsection \<open>C6: return from a trap\<close>

definition running_state :: cpu where
  "running_state = (init [])\<lparr>registers := (registers (init []))[0 := 0x350]\<rparr>"

text \<open>
  C6. \<open>ret\<close> clears the TRAP register, copies RET to PC and then calls \<open>eni\<close>. So,
  with no interrupt pending, \<open>ret\<close> after one \<open>trap(v)\<close> leaves PC as it was when
  \<open>trap\<close> was called, TRAP = 0 and interrupts enabled.
\<close>

theorem ret_after_trap:
  assumes "length (registers s) = 33"
  shows "ret s = eni (s\<lparr>registers := (registers s)[5 := 0, 0 := registers s ! 4]\<rparr>)
       \<and> (\<not> intr_pending s \<longrightarrow>
            (\<exists>s1 s2. trap s v = Inr s1 \<and> ret s1 = Inr s2
               \<and> getreg s2 REG_PC = getreg s REG_PC
               \<and> getreg s2 REG_TRAP = Inr 0
               \<and> \<not> intr_mask s2))"
proof -
  have ret_eq: "ret t = eni (t\<lparr>registers := (registers t)[5 := 0, 0 := registers t ! 4]\<rparr>)"
    if "length (registers t) = 33" for t
    using that by (simp add: ret_def setreg_in getreg_in reg_defs)
  let ?s1 = "trapped s (vector_taken s v)"
  have t: "trap s v = Inr ?s1"
    using assms by (rule trap_eq)
  have len1: "length (registers ?s1) = 33"
    using assms by (simp add: trapped_def)
  {
    assume quiet: "\<not> intr_pending s"
    let ?s2 = "?s1\<lparr>registers := (registers ?s1)[5 := 0, 0 := registers ?s1 ! 4],
                    intr_mask := False\<rparr>"
    have "ret ?s1 = eni (?s1\<lparr>registers := (registers ?s1)[5 := 0, 0 := registers ?s1 ! 4]\<rparr>)"
      by (rule ret_eq [OF len1])
    also have "\<dots> = Inr ?s2"
      using quiet by (simp add: eni_def Let_def trapped_def)
    finally have "ret ?s1 = Inr ?s2" .
    moreover have "getreg ?s2 REG_PC = getreg s REG_PC"
      using assms by (simp add: trapped_def getreg_in reg_defs)
    moreover have "getreg ?s2 REG_TRAP = Inr 0"
      using assms by (simp add: trapped_def getreg_in reg_defs)
    moreover have "\<not> intr_mask ?s2"
      by simp
    ultimately have "\<exists>s1 s2. trap s v = Inr s1 \<and> ret s1 = Inr s2
               \<and> getreg s2 REG_PC = getreg s REG_PC
               \<and> getreg s2 REG_TRAP = Inr 0
               \<and> \<not> intr_mask s2"
      using t by blast
  }
  with ret_eq [OF assms] show ?thesis by blast
qed

text \<open>The theorem for a divide trap taken at PC = 0x350.\<close>

theorem ret_after_trap_witness:
  "length (registers running_state) = 33 \<and> \<not> intr_pending running_state
   \<and> (\<exists>s1 s2. trap running_state TRAP_DIV = Inr s1 \<and> ret s1 = Inr s2
          \<and> getreg s2 REG_PC = Inr 0x350
          \<and> getreg s2 REG_TRAP = Inr 0
          \<and> \<not> intr_mask s2)"
proof -
  have len: "length (registers running_state) = 33"
    by (simp add: running_state_def init_def reg_defs)
  have quiet: "\<not> intr_pending running_state"
    by (simp add: running_state_def init_def)
  have pc: "getreg running_state REG_PC = Inr 0x350"
    by (simp add: running_state_def init_def reg_defs getreg_in)
  from ret_after_trap [OF len, of TRAP_DIV] quiet pc len show ?thesis
    by simp
qed

subsection \<open>C1: add, mul and sub reduce their result and set CARRY\<close>

lemma add_eq:
  assumes "length (registers s) = 33"
    and "0 \<le> r1" "r1 \<le> 0x20" "0 \<le> r2" "r2 \<le> 0x20" "0 \<le> r3" "r3 \<le> 0x20"
  shows "add s r1 r2 r3 =
    Inr (s\<lparr>registers := (registers s)
      [nat r3 := (registers s ! nat r1 + registers s ! nat r2) mod MAXVAL,
       3 := (if registers s ! nat r1 + registers s ! nat r2 > MAXVAL then 1 else 0)]\<rparr>)"
  using assms by (simp add: add_def Let_def getreg_in setreg_in reg_defs)

lemma mul_eq:
  assumes "length (registers s) = 33"
    and "0 \<le> r1" "r1 \<le> 0x20" "0 \<le> r2" "r2 \<le> 0x20" "0 \<le> r3" "r3 \<le> 0x20"
  shows "mul s r1 r2 r3 =
    Inr (s\<lparr>registers := (registers s)
      [nat r3 := (registers s ! nat r1 * registers s ! nat r2) mod MAXVAL,
       3 := (if registers s ! nat r1 * registers s ! nat r2 > MAXVAL then 1 else 0)]\<rparr>)"
  using assms by (simp add: mul_def Let_def getreg_in setreg_in reg_defs)

lemma sub_eq:
  assumes "length (registers s) = 33"
    and "0 \<le> r1" "r1 \<le> 0x20" "0 \<le> r2" "r2 \<le> 0x20" "0 \<le> r3" "r3 \<le> 0x20"
  shows "sub s r1 r2 r3 =
    Inr (s\<lparr>registers := (registers s)
      [nat r3 := (registers s ! nat r1 - registers s ! nat r2) mod MINVAL,
       3 := (if registers s ! nat r1 - registers s ! nat r2 < MINVAL then 1 else 0)]\<rparr>)"
  using assms by (simp add: sub_def Let_def getreg_in setreg_in reg_defs)

lemma mod_MAXVAL_range: "0 \<le> x mod MAXVAL \<and> x mod MAXVAL < MAXVAL"
  by (simp add: MAXVAL_def)

lemma mod_MINVAL_range: "MINVAL < x mod MINVAL \<and> x mod MINVAL \<le> 0"
  by (simp add: MINVAL_def)

lemma readback:
  assumes "length xs = 33" "0 \<le> r3" "r3 \<le> 0x20"
  shows "getreg (s\<lparr>registers := xs[nat r3 := x, 3 := c]\<rparr>) REG_CARRY = Inr c"
    and "r3 \<noteq> REG_CARRY \<Longrightarrow> getreg (s\<lparr>registers := xs[nat r3 := x, 3 := c]\<rparr>) r3 = Inr x"
  using assms by (auto simp: getreg_in reg_defs nth_list_update)

definition wrap_state :: cpu where
  "wrap_state = (init [])\<lparr>registers := (registers (init []))[6 := 0xFFFFFFFE, 7 := 3]\<rparr>"

text \<open>
  C1. With \<open>a\<close> and \<open>b\<close> the values of registers \<open>r1\<close> and \<open>r2\<close>:
  \<open>add\<close> stores \<open>(a + b) mod MAXVAL\<close> in \<open>r3\<close> and then sets CARRY to 1 if
  \<open>a + b > MAXVAL\<close> and to 0 otherwise; \<open>mul\<close> does the same with \<open>a * b\<close>;
  \<open>sub\<close> stores \<open>(a - b) mod MINVAL\<close> and sets CARRY to 1 if \<open>a - b < MINVAL\<close>
  and to 0 otherwise. The modulus \<open>MAXVAL\<close> is \<open>2^32 - 1\<close> and its residues lie in
  \<open>[0, MAXVAL)\<close>; the modulus \<open>MINVAL\<close> is \<open>-2^32\<close> and its residues lie in
  \<open>(MINVAL, 0]\<close>. A sum of \<open>MAXVAL\<close> is stored as 0 and a sum of \<open>MAXVAL + 1\<close>
  as 1. The two writes happen in this order, so the value read back from \<open>r3\<close> is
  the residue unless \<open>r3\<close> is the CARRY register itself.
\<close>

theorem arith_reduction:
  assumes "length (registers s) = 33"
    and "0 \<le> r1" "r1 \<le> 0x20" "0 \<le> r2" "r2 \<le> 0x20" "0 \<le> r3" "r3 \<le> 0x20"
    and "getreg s r1 = Inr a" and "getreg s r2 = Inr b"
  shows "(\<exists>s'. add s r1 r2 r3 = Inr s'
            \<and> s' = s\<lparr>registers := (registers s)
                  [nat r3 := (a + b) mod MAXVAL, 3 := (if a + b > MAXVAL then 1 else 0)]\<rparr>
            \<and> getreg s' REG_CARRY = Inr (if a + b > MAXVAL then 1 else 0)
            \<and> (r3 \<noteq> REG_CARRY \<longrightarrow> getreg s' r3 = Inr ((a + b) mod MAXVAL)))
       \<and> (\<exists>s'. mul s r1 r2 r3 = Inr s'
            \<and> s' = s\<lparr>registers := (registers s)
                  [nat r3 := (a * b) mod MAXVAL, 3 := (if a * b > MAXVAL then 1 else 0)]\<rparr>
            \<and> getreg s' REG_CARRY = Inr (if a * b > MAXVAL then 1 else 0)
            \<and> (r3 \<noteq> REG_CARRY \<longrightarrow> getreg s' r3 = Inr ((a * b) mod MAXVAL)))
       \<and> (\<exists>s'. sub s r1 r2 r3 = Inr s'
            \<and> s' = s\<lparr>registers := (registers s)
                  [nat r3 := (a - b) mod MINVAL, 3 := (if a - b < MINVAL then 1 else 0)]\<rparr>
            \<and> getreg s' REG_CARRY = Inr (if a - b < MINVAL then 1 else 0)
            \<and> (r3 \<noteq> REG_CARRY \<longrightarrow> getreg s' r3 = Inr ((a - b) mod MINVAL)))
       \<and> MAXVAL = 2 ^ 32 - 1 \<and> MINVAL = - (2 ^ 32)
       \<and> 0 \<le> (a + b) mod MAXVAL \<and> (a + b) mod MAXVAL < MAXVAL
       \<and> 0 \<le> (a * b) mod MAXVAL \<and> (a * b) mod MAXVAL < MAXVAL
       \<and> MINVAL < (a - b) mod MINVAL \<and> (a - b) mod MINVAL \<le> 0
       \<and> (a + b = MAXVAL \<longrightarrow> (a + b) mod MAXVAL = 0)
       \<and> (a + b = MAXVAL + 1 \<longrightarrow> (a + b) mod MAXVAL = 1)"
proof -
  have a: "registers s ! nat r1 = a" and b: "registers s ! nat r2 = b"
    using assms by (simp_all add: getreg_in)
  note idx = assms(1-7)
  have len: "length (registers s) = 33" by fact
  have "\<exists>s'. add s r1 r2 r3 = Inr s'
            \<and> s' = s\<lparr>registers := (registers s)
                  [nat r3 := (a + b) mod MAXVAL, 3 := (if a + b > MAXVAL then 1 else 0)]\<rparr>
            \<and> getreg s' REG_CARRY = Inr (if a + b > MAXVAL then 1 else 0)
            \<and> (r3 \<noteq> REG_CARRY \<longrightarrow> getreg s' r3 = Inr ((a + b) mod MAXVAL))"
    using add_eq [OF idx] readback [OF len assms(6,7)] by (simp add: a b)
  moreover have "\<exists>s'. mul s r1 r2 r3 = Inr s'
            \<and> s' = s\<lparr>registers := (registers s)
                  [nat r3 := (a * b) mod MAXVAL, 3 := (if a * b > MAXVAL then 1 else 0)]\<rparr>
            \<and> getreg s' REG_CARRY = Inr (if a * b > MAXVAL then 1 else 0)
            \<and> (r3 \<noteq> REG_CARRY \<longrightarrow> getreg s' r3 = Inr ((a * b) mod MAXVAL))"
    using mul_eq [OF idx] readback [OF len assms(6,7)] by (simp add: a b)
  moreover have "\<exists>s'. sub s r1 r2 r3 = Inr s'
            \<and> s' = s\<lparr>registers := (registers s)
                  [nat r3 := (a - b) mod MINVAL, 3 := (if a - b < MINVAL then 1 else 0)]\<rparr>
            \<and> getreg s' REG_CARRY = Inr (if a - b < MINVAL then 1 else 0)
            \<and> (r3 \<noteq> REG_CARRY \<longrightarrow> getreg s' r3 = Inr ((a - b) mod MINVAL))"
    using sub_eq [OF idx] readback [OF len assms(6,7)] by (simp add: a b)
  moreover have "MAXVAL = 2 ^ 32 - 1 \<and> MINVAL = - (2 ^ 32)"
    by (simp add: MAXVAL_def MINVAL_def)
  moreover have "(a + b = MAXVAL \<longrightarrow> (a + b) mod MAXVAL = 0)
       \<and> (a + b = MAXVAL + 1 \<longrightarrow> (a + b) mod MAXVAL = 1)"
    by (simp add: MAXVAL_def)
  ultimately show ?thesis
    using mod_MAXVAL_range [of "a + b"] mod_MAXVAL_range [of "a * b"]
      mod_MINVAL_range [of "a - b"]
    by blast
qed

text \<open>
  The theorem at \<open>0xFFFFFFFE + 3\<close>, which is stored as 2 with CARRY = 1, and at
  \<open>3 - 0xFFFFFFFE\<close>.
\<close>

theorem arith_reduction_witness:
  "length (registers wrap_state) = 33
   \<and> getreg wrap_state 6 = Inr 0xFFFFFFFE \<and> getreg wrap_state 7 = Inr 3
   \<and> (\<exists>s'. add wrap_state 6 7 8 = Inr s'
          \<and> getreg s' REG_CARRY = Inr 1 \<and> getreg s' 8 = Inr 2)
   \<and> (\<exists>s'. sub wrap_state 7 6 8 = Inr s'
          \<and> getreg s' REG_CARRY = Inr 0 \<and> getreg s' 8 = Inr (- 4294967291))"
proof -
  have len: "length (registers wrap_state) = 33"
    by (simp add: wrap_state_def init_def reg_defs)
  have r6: "getreg wrap_state 6 = Inr 0xFFFFFFFE"
    by (simp add: wrap_state_def init_def reg_defs getreg_in)
  have r7: "getreg wrap_state 7 = Inr 3"
    by (simp add: wrap_state_def init_def reg_defs getreg_in)
  have dest: "(8::int) \<noteq> REG_CARRY"
    by (simp add: reg_defs)
  from arith_reduction [OF len _ _ _ _ _ _ r6 r7, of 8]
    arith_reduction [OF len _ _ _ _ _ _ r7 r6, of 8]
    len r6 r7 dest
  show ?thesis
    by (simp add: MAXVAL_def MINVAL_def)
qed

subsection \<open>C4: division\<close>

lemma div_op_zero:
  assumes "length (registers s) = 33" "0 \<le> r2" "r2 \<le> 0x20" "registers s ! nat r2 = 0"
  shows "div_op s r1 r2 r3 = trap s TRAP_DIV"
  using assms by (simp add: div_op_def getreg_in)

lemma div_op_nonzero:
  assumes "length (registers s) = 33"
    and "0 \<le> r1" "r1 \<le> 0x20" "0 \<le> r2" "r2 \<le> 0x20" "0 \<le> r3" "r3 \<le> 0x20"
    and "registers s ! nat r2 \<noteq> 0"
  shows "div_op s r1 r2 r3 =
    Inr (s\<lparr>registers := (registers s)
      [nat r3 := registers s ! nat r1 div registers s ! nat r2, 3 := 0]\<rparr>)"
  using assms by (simp add: div_op_def Let_def getreg_in setreg_in reg_defs)

lemma trapped_regs:
  assumes "length (registers s) = 33"
  shows "getreg (trapped s pc) REG_PC = Inr pc"
    and "getreg (trapped s pc) REG_TRAP = Inr 1"
    and "getreg (trapped s pc) REG_RET = getreg s REG_PC"
    and "0 \<le> r \<Longrightarrow> r \<le> 0x20 \<Longrightarrow> r \<notin> {REG_PC, REG_RET, REG_TRAP}
         \<Longrightarrow> getreg (trapped s pc) r = getreg s r"
  using assms by (auto simp: trapped_def getreg_in reg_defs nth_list_update)

definition div_state :: cpu where
  "div_state = (init [])\<lparr>registers := (registers (init []))[0 := 0x30, 6 := - 7, 7 := 2, 9 := 55]\<rparr>"

definition div_in_handler :: cpu where
  "div_in_handler = (init [])\<lparr>registers := (registers (init []))[0 := 0x120, 5 := 1, 6 := 10]\<rparr>"

text \<open>
  C4, as the code has it. Inside a trap handler (TRAP = 1) a division by zero does not
  end at the DIV vector: the trap is taken as a double trap and PC is 0x40.
\<close>

theorem div_by_zero_in_handler_counterexample:
  "getreg div_in_handler 7 = Inr 0
   \<and> \<not> isl (div_op div_in_handler 6 7 8)
   \<and> getreg (projr (div_op div_in_handler 6 7 8)) REG_PC = Inr 0x40
   \<and> getreg (projr (div_op div_in_handler 6 7 8)) REG_PC \<noteq> Inr 0x30"
proof -
  have len: "length (registers div_in_handler) = 33"
    by (simp add: div_in_handler_def init_def reg_defs)
  have r7: "getreg div_in_handler 7 = Inr 0"
    by (simp add: div_in_handler_def init_def reg_defs getreg_in)
  have flag: "registers div_in_handler ! 5 = 1"
    by (simp add: div_in_handler_def init_def reg_defs)
  have "div_op div_in_handler 6 7 8 = trap div_in_handler TRAP_DIV"
    using len r7 by (simp add: div_op_def)
  also have "\<dots> = Inr (trapped div_in_handler TRAP_DTRAP)"
    using len flag by (simp add: trap_eq vector_taken_def trap_defs)
  finally have res: "div_op div_in_handler 6 7 8 = Inr (trapped div_in_handler TRAP_DTRAP)" .
  have "getreg (trapped div_in_handler TRAP_DTRAP) REG_PC = Inr 0x40"
    using len by (simp add: trapped_regs trap_defs)
  with res r7 show ?thesis by simp
qed

text \<open>
  C4, amended. With \<open>a\<close> and \<open>b\<close> the values of \<open>r1\<close> and \<open>r2\<close>: if \<open>b\<close> is 0,
  \<open>div\<close> is the call \<open>trap(TRAP_DIV)\<close> and nothing else; it returns with TRAP = 1, with
  PC = 0x30 when the TRAP register was 0 before and PC = 0x40 (double trap) when it was
  not, and with \<open>r3\<close> as it was unless \<open>r3\<close> is one of PC, RET and TRAP, which the trap
  writes. Otherwise \<open>r3\<close> receives \<open>a div b\<close>, the floor of the exact quotient, and
  then CARRY is set to 0.
\<close>

theorem div_semantics:
  assumes "length (registers s) = 33"
    and "0 \<le> r1" "r1 \<le> 0x20" "0 \<le> r2" "r2 \<le> 0x20" "0 \<le> r3" "r3 \<le> 0x20"
    and "getreg s r1 = Inr a" and "getreg s r2 = Inr b"
  shows "(b = 0 \<longrightarrow>
           div_op s r1 r2 r3 = trap s TRAP_DIV
           \<and> (\<exists>s'. div_op s r1 r2 r3 = Inr s'
                \<and> getreg s' REG_TRAP = Inr 1
                \<and> (getreg s REG_TRAP = Inr 0 \<longrightarrow> getreg s' REG_PC = Inr 0x30)
                \<and> (getreg s REG_TRAP \<noteq> Inr 0 \<longrightarrow> getreg s' REG_PC = Inr 0x40)
                \<and> (r3 \<notin> {REG_PC, REG_RET, REG_TRAP} \<longrightarrow> getreg s' r3 = getreg s r3)))
       \<and> (b \<noteq> 0 \<longrightarrow>
           (\<exists>s'. div_op s r1 r2 r3 = Inr s'
                \<and> s' = s\<lparr>registers := (registers s)[nat r3 := a div b, 3 := 0]\<rparr>
                \<and> getreg s' REG_CARRY = Inr 0
                \<and> (r3 \<noteq> REG_CARRY \<longrightarrow> getreg s' r3 = Inr (a div b))
                \<and> a div b = \<lfloor>real_of_int a / real_of_int b\<rfloor>))"
proof -
  have len: "length (registers s) = 33" by fact
  have a: "registers s ! nat r1 = a" and b: "registers s ! nat r2 = b"
    using assms by (simp_all add: getreg_in)
  have zero: "div_op s r1 r2 r3 = trap s TRAP_DIV
           \<and> (\<exists>s'. div_op s r1 r2 r3 = Inr s'
                \<and> getreg s' REG_TRAP = Inr 1
                \<and> (getreg s REG_TRAP = Inr 0 \<longrightarrow> getreg s' REG_PC = Inr 0x30)
                \<and> (getreg s REG_TRAP \<noteq> Inr 0 \<longrightarrow> getreg s' REG_PC = Inr 0x40)
                \<and> (r3 \<notin> {REG_PC, REG_RET, REG_TRAP} \<longrightarrow> getreg s' r3 = getreg s r3))"
    if "b = 0"
  proof -
    have call: "div_op s r1 r2 r3 = trap s TRAP_DIV"
      using len assms(4,5) b that by (simp add: div_op_zero)
    let ?s' = "trapped s (vector_taken s TRAP_DIV)"
    have res: "trap s TRAP_DIV = Inr ?s'"
      using len by (rule trap_eq)
    have pc: "getreg ?s' REG_PC = Inr (vector_taken s TRAP_DIV)"
      using len by (rule trapped_regs)
    have flag: "getreg s REG_TRAP = Inr (registers s ! 5)"
      using len by (simp add: getreg_in reg_defs)
    have "getreg s REG_TRAP = Inr 0 \<longrightarrow> getreg ?s' REG_PC = Inr 0x30"
      unfolding pc flag by (simp add: vector_taken_def trap_defs)
    moreover have "getreg s REG_TRAP \<noteq> Inr 0 \<longrightarrow> getreg ?s' REG_PC = Inr 0x40"
      unfolding pc flag by (simp add: vector_taken_def trap_defs)
    moreover have "r3 \<notin> {REG_PC, REG_RET, REG_TRAP} \<longrightarrow> getreg ?s' r3 = getreg s r3"
      using trapped_regs(4) [OF len assms(6,7)] by blast
    moreover have "getreg ?s' REG_TRAP = Inr 1"
      using len by (rule trapped_regs)
    ultimately show ?thesis
      using call res by simp
  qed
  have nonzero: "\<exists>s'. div_op s r1 r2 r3 = Inr s'
                \<and> s' = s\<lparr>registers := (registers s)[nat r3 := a div b, 3 := 0]\<rparr>
                \<and> getreg s' REG_CARRY = Inr 0
                \<and> (r3 \<noteq> REG_CARRY \<longrightarrow> getreg s' r3 = Inr (a div b))
                \<and> a div b = \<lfloor>real_of_int a / real_of_int b\<rfloor>"
    if "b \<noteq> 0"
  proof -
    have "div_op s r1 r2 r3 = Inr (s\<lparr>registers := (registers s)[nat r3 := a div b, 3 := 0]\<rparr>)"
      using div_op_nonzero [OF assms(1-7)] that by (simp add: a b)
    moreover have "a div b = \<lfloor>real_of_int a / real_of_int b\<rfloor>"
      by (simp add: floor_divide_of_int_eq)
    ultimately show ?thesis
      using readback [OF len assms(6,7)] by simp
  qed
  from zero nonzero show ?thesis by blast
qed

text \<open>The theorem at \<open>-7 // 2 = -4\<close> and at a division by the zero in register 8.\<close>

theorem div_semantics_witness:
  "length (registers div_state) = 33
   \<and> getreg div_state 6 = Inr (- 7) \<and> getreg div_state 7 = Inr 2 \<and> getreg div_state 8 = Inr 0
   \<and> getreg div_state REG_TRAP = Inr 0
   \<and> (\<exists>s'. div_op div_state 6 7 9 = Inr s' \<and> getreg s' 9 = Inr (- 4)
          \<and> getreg s' REG_CARRY = Inr 0)
   \<and> (\<exists>s'. div_op div_state 6 8 9 = Inr s' \<and> getreg s' REG_PC = Inr 0x30
          \<and> getreg s' REG_TRAP = Inr 1 \<and> getreg s' 9 = Inr 55)"
proof -
  have len: "length (registers div_state) = 33"
    by (simp add: div_state_def init_def reg_defs)
  have r6: "getreg div_state 6 = Inr (- 7)"
    by (simp add: div_state_def init_def reg_defs getreg_in)
  have r7: "getreg div_state 7 = Inr 2"
    by (simp add: div_state_def init_def reg_defs getreg_in)
  have r8: "getreg div_state 8 = Inr 0"
    by (simp add: div_state_def init_def reg_defs getreg_in)
  have r9: "getreg div_state 9 = Inr 55"
    by (simp add: div_state_def init_def reg_defs getreg_in)
  have flag: "getreg div_state REG_TRAP = Inr 0"
    by (simp add: div_state_def init_def reg_defs getreg_in)
  have dest: "(9::int) \<noteq> REG_CARRY" "(9::int) \<notin> {REG_PC, REG_RET, REG_TRAP}"
    by (simp_all add: reg_defs)
  have i6: "(0::int) \<le> 6" "(6::int) \<le> 0x20" and i7: "(0::int) \<le> 7" "(7::int) \<le> 0x20"
    and i8: "(0::int) \<le> 8" "(8::int) \<le> 0x20" and i9: "(0::int) \<le> 9" "(9::int) \<le> 0x20"
    by simp_all
  have quotient: "\<exists>s'. div_op div_state 6 7 9 = Inr s' \<and> getreg s' 9 = Inr (- 4)
          \<and> getreg s' REG_CARRY = Inr 0"
    using div_semantics [OF len i6 i7 i9 r6 r7] dest by simp
  have "\<exists>s'. div_op div_state 6 8 9 = Inr s' \<and> getreg s' REG_PC = Inr 0x30
          \<and> getreg s' REG_TRAP = Inr 1 \<and> getreg s' 9 = Inr 55"
    using div_semantics [OF len i6 i8 i9 r6 r8] dest flag r9 by metis
  with quotient len r6 r7 r8 flag show ?thesis
    by blast
qed

subsection \<open>C9: swap\<close>

definition swap_state :: cpu where
  "swap_state = (init [])\<lparr>registers := (registers (init []))[6 := 5, 7 := 9]\<rparr>"

text \<open>
  C9 says that \<open>swap(r1, r2)\<close> exchanges the two registers. The code stores the
  register number \<open>reg2\<close> in \<open>reg1\<close>, not the value of the register: with 5 in register
  6 and 9 in register 7, \<open>swap(6, 7)\<close> leaves 7 in register 6 (the claim: 9) and 5 in
  register 7.
\<close>

theorem swap_stores_register_number:
  "getreg swap_state 6 = Inr 5 \<and> getreg swap_state 7 = Inr 9
   \<and> \<not> isl (swap swap_state 6 7)
   \<and> getreg (projr (swap swap_state 6 7)) 6 = Inr 7
   \<and> getreg (projr (swap swap_state 6 7)) 7 = Inr 5"
  by (simp add: swap_state_def init_def reg_defs swap_def getreg_in setreg_in)

subsection \<open>C5: register operands of decoded instructions\<close>

definition scratch_program :: "int list" where
  "scratch_program = [0, 0, 0, 0x06,  0, 0, 0, 0x20,  0, 0, 0, 0x07,  0, 0, 0, 0]"

lemma loadw_in:
  assumes "length (registers s) = 33" "0 \<le> r" "r \<le> 0x20"
    and "0 \<le> a" "a + 3 < int (length (memory s))" "a + 3 \<le> MAXVAL"
  shows "loadw s r a = Inr (s\<lparr>registers := (registers s)[nat r :=
      ((push_bit 24 (memory s ! nat a) OR push_bit 16 (memory s ! nat (a + 1)))
        OR push_bit 8 (memory s ! nat (a + 2))) OR memory s ! nat (a + 3)]\<rparr>)"
  using assms by (simp add: loadw_def getreg_in setreg_in getmem_in)

lemma fetch_word_in:
  assumes "length (registers s) = 33"
    and "0 \<le> registers s ! 0" "registers s ! 0 + 3 < int (length (memory s))"
    and "registers s ! 0 + 3 \<le> MAXVAL"
  shows "fetch_word s =
     (let w = ((push_bit 24 (memory s ! nat (registers s ! 0))
            OR push_bit 16 (memory s ! nat (registers s ! 0 + 1)))
            OR push_bit 8 (memory s ! nat (registers s ! 0 + 2)))
            OR memory s ! nat (registers s ! 0 + 3)
      in Inr (w, s\<lparr>registers := (registers s)[32 := w, 0 := registers s ! 0 + 4]\<rparr>))"
  using assms by (simp add: fetch_word_def getreg_in setreg_in reg_defs loadw_in Let_def)

text \<open>
  C5 says that a register operand above 0x1F raises the ILL trap and that register 0x20
  cannot be named by a program. The decoder compares with \<open>REG_RESVD\<close>, which is 0x20
  itself: the instruction \<open>loadwi 0x20, 7\<close> at address 0 is decoded and executed, no
  trap is taken (TRAP stays 0, PC is the address after the instruction) and register
  0x20 holds 7.
\<close>

theorem decoder_accepts_scratch_register:
  "decode_next_instr h (init scratch_program) =
     Inr ((init scratch_program)\<lparr>registers := (registers (init scratch_program))[0 := 16, 32 := 7]\<rparr>)"
  apply (simp add: decode_next_instr_def fetch_word_in init_def scratch_program_def reg_defs MAXVAL_def Let_def)
  apply (simp add: dispatch_def INSTRS_def py_index_def reg_defs call_instr_def loadwi_def setreg_in)
  apply (simp add: list_eq_iff_nth_eq nth_list_update)
  done

subsection \<open>C7: a word stored and loaded again\<close>

text \<open>\<open>savew\<close> at an address followed at once by \<open>loadw\<close> from the same address.\<close>

definition save_then_load :: "cpu \<Rightarrow> int \<Rightarrow> int \<Rightarrow> int \<Rightarrow> exn + cpu" where
  "save_then_load s reg1 addr reg2 = thn (savew s reg1 addr) (\<lambda>s1. loadw s1 reg2 addr)"

text \<open>The state after \<open>savew\<close> has written the four bytes of \<open>v\<close> at \<open>a\<close>.\<close>

definition stored_word :: "cpu \<Rightarrow> int \<Rightarrow> int \<Rightarrow> cpu" where
  "stored_word s a v = s\<lparr>memory := (memory s)
      [nat a := drop_bit 24 v AND 0xff, nat (a + 1) := drop_bit 16 v AND 0xff,
       nat (a + 2) := drop_bit 8 v AND 0xff, nat (a + 3) := v AND 0xff]\<rparr>"

definition word_state :: "int \<Rightarrow> cpu" where
  "word_state v = (init [0, 0, 0, 0, 0, 0, 0, 0])\<lparr>registers :=
     (registers (init [0, 0, 0, 0, 0, 0, 0, 0]))[6 := v]\<rparr>"

lemma and_255: "(x::int) AND 0xff = take_bit 8 x"
proof -
  have "(0xff::int) = mask 8" by (simp add: mask_eq_exp_minus_1)
  then show ?thesis by (simp add: take_bit_eq_mask)
qed

lemma be_bytes_word:
  "((push_bit 24 (drop_bit 24 v AND 0xff) OR push_bit 16 (drop_bit 16 v AND 0xff))
      OR push_bit 8 (drop_bit 8 v AND 0xff)) OR (v AND 0xff) = take_bit 32 (v::int)"
  unfolding and_255
proof (rule bit_eqI)
  fix n :: nat
  consider "n < 8" | "8 \<le> n \<and> n < 16" | "16 \<le> n \<and> n < 24" | "24 \<le> n \<and> n < 32" | "32 \<le> n"
    by linarith
  then show "bit (((push_bit 24 (take_bit 8 (drop_bit 24 v)) OR push_bit 16 (take_bit 8 (drop_bit 16 v)))
      OR push_bit 8 (take_bit 8 (drop_bit 8 v))) OR take_bit 8 v) n = bit (take_bit 32 v) n"
    by cases (auto simp: bit_simps)
qed

lemma byte0: "drop_bit 24 (v::int) AND 0xff = v mod 2 ^ 32 div 2 ^ 24"
proof -
  have "take_bit 8 (drop_bit 24 v) = drop_bit 24 (take_bit 32 v)"
    by (simp add: drop_bit_take_bit)
  then show ?thesis
    by (simp add: and_255 take_bit_eq_mod drop_bit_eq_div)
qed

lemma byte1: "drop_bit 16 (v::int) AND 0xff = v mod 2 ^ 32 div 2 ^ 16 mod 256"
proof -
  have "take_bit 8 (drop_bit 16 v) = take_bit 8 (drop_bit 16 (take_bit 32 v))"
    by (simp add: drop_bit_take_bit)
  then show ?thesis
    by (simp add: and_255 take_bit_eq_mod drop_bit_eq_div)
qed

lemma byte2: "drop_bit 8 (v::int) AND 0xff = v mod 2 ^ 32 div 2 ^ 8 mod 256"
proof -
  have "take_bit 8 (drop_bit 8 v) = take_bit 8 (drop_bit 8 (take_bit 32 v))"
    by (simp add: drop_bit_take_bit)
  then show ?thesis
    by (simp add: and_255 take_bit_eq_mod drop_bit_eq_div)
qed

lemma byte3: "(v::int) AND 0xff = v mod 2 ^ 32 mod 256"
proof -
  have "take_bit 8 v = take_bit 8 (take_bit 32 v)"
    by simp
  then show ?thesis
    by (simp add: and_255 take_bit_eq_mod)
qed


lemma savew_in:
  assumes "length (registers s) = 33" "0 \<le> r" "r \<le> 0x20"
    and "0 \<le> a" "a + 3 < int (length (memory s))" "a + 3 \<le> MAXVAL"
  shows "savew s r a = Inr (s\<lparr>memory := (memory s)
      [nat a := drop_bit 24 (registers s ! nat r) AND 0xff,
       nat (a + 1) := drop_bit 16 (registers s ! nat r) AND 0xff,
       nat (a + 2) := drop_bit 8 (registers s ! nat r) AND 0xff,
       nat (a + 3) := registers s ! nat r AND 0xff]\<rparr>)"
  using assms by (simp add: savew_def getreg_in setmem_in)

lemma stored_word_bytes:
  assumes "0 \<le> a" "a + 3 < int (length (memory s))"
  shows "getmem (stored_word s a v) a = Inr (v mod 2 ^ 32 div 2 ^ 24)"
    and "getmem (stored_word s a v) (a + 1) = Inr (v mod 2 ^ 32 div 2 ^ 16 mod 256)"
    and "getmem (stored_word s a v) (a + 2) = Inr (v mod 2 ^ 32 div 2 ^ 8 mod 256)"
    and "getmem (stored_word s a v) (a + 3) = Inr (v mod 2 ^ 32 mod 256)"
proof -
  have distinct: "nat a \<noteq> nat (a + 1)" "nat a \<noteq> nat (a + 2)" "nat a \<noteq> nat (a + 3)"
    "nat (a + 1) \<noteq> nat (a + 2)" "nat (a + 1) \<noteq> nat (a + 3)" "nat (a + 2) \<noteq> nat (a + 3)"
    using assms(1) by simp_all
  have inb: "nat a < length (memory s)" "nat (a + 1) < length (memory s)"
    "nat (a + 2) < length (memory s)" "nat (a + 3) < length (memory s)"
    using assms by simp_all
  show "getmem (stored_word s a v) a = Inr (v mod 2 ^ 32 div 2 ^ 24)"
    using assms distinct inb by (simp add: stored_word_def getmem_in nth_list_update byte0)
  show "getmem (stored_word s a v) (a + 1) = Inr (v mod 2 ^ 32 div 2 ^ 16 mod 256)"
    using assms distinct inb by (simp add: stored_word_def getmem_in nth_list_update byte1)
  show "getmem (stored_word s a v) (a + 2) = Inr (v mod 2 ^ 32 div 2 ^ 8 mod 256)"
    using assms distinct inb by (simp add: stored_word_def getmem_in nth_list_update byte2)
  show "getmem (stored_word s a v) (a + 3) = Inr (v mod 2 ^ 32 mod 256)"
    using assms distinct inb by (simp add: stored_word_def getmem_in nth_list_update byte3)
qed

lemma savew_stored_word:
  assumes "length (registers s) = 33" "0 \<le> r" "r \<le> 0x20"
    and "0 \<le> a" "a + 3 < int (length (memory s))" "a + 3 \<le> MAXVAL"
  shows "savew s r a = Inr (stored_word s a (registers s ! nat r))"
  using savew_in [OF assms] by (simp add: stored_word_def)

lemma loadw_stored_word:
  assumes "length (registers s) = 33" "0 \<le> r" "r \<le> 0x20"
    and "0 \<le> a" "a + 3 < int (length (memory s))" "a + 3 \<le> MAXVAL"
  shows "loadw (stored_word s a v) r a =
     Inr ((stored_word s a v)\<lparr>registers := (registers s)[nat r := v mod 2 ^ 32]\<rparr>)"
proof -
  let ?s1 = "stored_word s a v"
  have len1: "length (registers ?s1) = 33" and mem1: "a + 3 < int (length (memory ?s1))"
    using assms by (simp_all add: stored_word_def)
  have i1: "0 \<le> a + 1" "a + 1 < int (length (memory ?s1))"
    and i2: "0 \<le> a + 2" "a + 2 < int (length (memory ?s1))"
    and i3: "0 \<le> a + 3" and i0: "a < int (length (memory ?s1))"
    using assms(4) mem1 by simp_all
  have bytes: "memory ?s1 ! nat a = drop_bit 24 v AND 0xff"
    "memory ?s1 ! nat (a + 1) = drop_bit 16 v AND 0xff"
    "memory ?s1 ! nat (a + 2) = drop_bit 8 v AND 0xff"
    "memory ?s1 ! nat (a + 3) = v AND 0xff"
    using assms(4,5) by (simp_all add: stored_word_def nth_list_update)
  have "loadw ?s1 r a = Inr (?s1\<lparr>registers := (registers ?s1)[nat r :=
      ((push_bit 24 (memory ?s1 ! nat a) OR push_bit 16 (memory ?s1 ! nat (a + 1)))
        OR push_bit 8 (memory ?s1 ! nat (a + 2))) OR memory ?s1 ! nat (a + 3)]\<rparr>)"
    by (rule loadw_in [OF len1 assms(2,3) assms(4) mem1 assms(6)])
  also have "((push_bit 24 (memory ?s1 ! nat a) OR push_bit 16 (memory ?s1 ! nat (a + 1)))
        OR push_bit 8 (memory ?s1 ! nat (a + 2))) OR memory ?s1 ! nat (a + 3) = v mod 2 ^ 32"
    unfolding bytes be_bytes_word by (simp add: take_bit_eq_mod)
  also have "registers ?s1 = registers s"
    by (simp add: stored_word_def)
  finally show ?thesis .
qed

lemma word_state_facts:
  "length (registers (word_state v)) = 33" "getreg (word_state v) 6 = Inr v"
  "length (memory (word_state v)) = 8"
  by (simp_all add: word_state_def init_def reg_defs getreg_in)

text \<open>
  C7, as the code has it. Registers hold Python integers, and \<open>sub\<close> and \<open>not\<close> leave
  negative ones: the register value -1 is stored as the bytes FF FF FF FF and loaded
  again as 0xFFFFFFFF, which is not -1.
\<close>

theorem negative_word_counterexample:
  "getreg (word_state (- 1)) 6 = Inr (- 1)
   \<and> \<not> isl (save_then_load (word_state (- 1)) 6 4 7)
   \<and> getreg (projr (save_then_load (word_state (- 1)) 6 4 7)) 7 = Inr 0xFFFFFFFF
   \<and> getreg (projr (save_then_load (word_state (- 1)) 6 4 7)) 7 \<noteq> Inr (- 1)"
proof -
  let ?s = "word_state (- 1)"
  have i: "(0::int) \<le> 6" "(6::int) \<le> 0x20" "(0::int) \<le> 7" "(7::int) \<le> 0x20"
    "(0::int) \<le> 4" "(4::int) + 3 < int (length (memory ?s))"
    "(4::int) + 3 \<le> MAXVAL"
    by (simp_all add: word_state_facts MAXVAL_def)
  have r6: "registers ?s ! nat 6 = - 1"
    by (simp add: word_state_def init_def reg_defs)
  have save: "savew ?s 6 4 = Inr (stored_word ?s 4 (- 1))"
    using savew_stored_word [OF word_state_facts(1) i(1,2) i(5-7)] by (simp only: r6)
  have load: "loadw (stored_word ?s 4 (- 1)) 7 4 =
     Inr ((stored_word ?s 4 (- 1))\<lparr>registers := (registers ?s)[nat 7 := (- 1) mod 2 ^ 32]\<rparr>)"
    by (rule loadw_stored_word [OF word_state_facts(1) i(3,4) i(5-7)])
  have "save_then_load ?s 6 4 7 =
     Inr ((stored_word ?s 4 (- 1))\<lparr>registers := (registers ?s)[nat 7 := (- 1) mod 2 ^ 32]\<rparr>)"
    by (simp add: save_then_load_def save load)
  then show ?thesis
    by (simp add: word_state_facts getreg_in)
qed

text \<open>
  C7, amended. For a register value \<open>v\<close> and an address \<open>a \<ge> 0\<close> with
  \<open>a + 3 \<le> MAXVAL\<close> and \<open>a + 3\<close> inside the memory, \<open>savew\<close> followed by
  \<open>loadw\<close> loads \<open>v mod 2^32\<close>, the low 32 bits of \<open>v\<close>, which is \<open>v\<close> itself
  when \<open>0 \<le> v < 2^32\<close>; the bytes written at \<open>a\<close> .. \<open>a + 3\<close> are the bytes of
  \<open>v mod 2^32\<close>, most significant first.
\<close>

theorem word_store_load:
  assumes "length (registers s) = 33"
    and "0 \<le> r1" "r1 \<le> 0x20" "0 \<le> r2" "r2 \<le> 0x20"
    and "0 \<le> a" "a + 3 < int (length (memory s))" "a + 3 \<le> MAXVAL"
    and "getreg s r1 = Inr v"
  shows "\<exists>s1 s2. savew s r1 a = Inr s1 \<and> loadw s1 r2 a = Inr s2
           \<and> save_then_load s r1 a r2 = Inr s2
           \<and> getreg s2 r2 = Inr (v mod 2 ^ 32)
           \<and> (0 \<le> v \<and> v < 2 ^ 32 \<longrightarrow> getreg s2 r2 = Inr v)
           \<and> getmem s1 a = Inr (v mod 2 ^ 32 div 2 ^ 24)
           \<and> getmem s1 (a + 1) = Inr (v mod 2 ^ 32 div 2 ^ 16 mod 256)
           \<and> getmem s1 (a + 2) = Inr (v mod 2 ^ 32 div 2 ^ 8 mod 256)
           \<and> getmem s1 (a + 3) = Inr (v mod 2 ^ 32 mod 256)
           \<and> memory s2 = memory s1"
proof -
  have v: "registers s ! nat r1 = v"
    using assms by (simp add: getreg_in)
  let ?s1 = "stored_word s a v"
  let ?s2 = "?s1\<lparr>registers := (registers s)[nat r2 := v mod 2 ^ 32]\<rparr>"
  have save: "savew s r1 a = Inr ?s1"
    using savew_stored_word [OF assms(1-3) assms(6-8)] by (simp add: v)
  have load: "loadw ?s1 r2 a = Inr ?s2"
    by (rule loadw_stored_word [OF assms(1) assms(4,5) assms(6-8)])
  have both: "save_then_load s r1 a r2 = Inr ?s2"
    by (simp add: save_then_load_def save load)
  have loaded: "getreg ?s2 r2 = Inr (v mod 2 ^ 32)"
    using assms(1,4,5) by (simp add: getreg_in stored_word_def)
  have same: "0 \<le> v \<and> v < 2 ^ 32 \<longrightarrow> getreg ?s2 r2 = Inr v"
  proof
    assume "0 \<le> v \<and> v < 2 ^ 32"
    then have eq: "v mod 2 ^ 32 = v"
      by simp
    show "getreg ?s2 r2 = Inr v"
      by (rule trans [OF loaded]) (simp only: eq)
  qed
  have "memory ?s2 = memory ?s1"
    by simp
  with save load both loaded same stored_word_bytes [OF assms(6,7), of v] show ?thesis
    by blast
qed

text \<open>The theorem for the word 0xDEADBEEF stored at address 4 of a memory of 8 bytes.\<close>

theorem word_store_load_witness:
  "length (registers (word_state 0xDEADBEEF)) = 33
   \<and> getreg (word_state 0xDEADBEEF) 6 = Inr 0xDEADBEEF
   \<and> (\<exists>s1 s2. savew (word_state 0xDEADBEEF) 6 4 = Inr s1 \<and> loadw s1 7 4 = Inr s2
          \<and> getreg s2 7 = Inr 0xDEADBEEF
          \<and> getmem s1 4 = Inr 0xDE \<and> getmem s1 5 = Inr 0xAD
          \<and> getmem s1 6 = Inr 0xBE \<and> getmem s1 7 = Inr 0xEF)"
proof -
  have i: "(0::int) \<le> 6" "(6::int) \<le> 0x20" "(0::int) \<le> 7" "(7::int) \<le> 0x20"
    "(0::int) \<le> 4" "(4::int) + 3 < int (length (memory (word_state 0xDEADBEEF)))"
    "(4::int) + 3 \<le> MAXVAL"
    by (simp_all add: word_state_facts MAXVAL_def)
  from word_store_load [OF word_state_facts(1) i word_state_facts(2)] word_state_facts
  show ?thesis
    by auto
qed

subsection \<open>Decoding an instruction that lies inside the memory\<close>


definition word_at :: "int list \<Rightarrow> int \<Rightarrow> int" where
  "word_at m a = ((push_bit 24 (m ! nat a) OR push_bit 16 (m ! nat (a + 1)))
        OR push_bit 8 (m ! nat (a + 2))) OR m ! nat (a + 3)"

definition fetched :: "cpu \<Rightarrow> int \<Rightarrow> cpu" where
  "fetched s pc = s\<lparr>registers := (registers s)[32 := word_at (memory s) (pc + 12), 0 := pc + 16]\<rparr>"







lemma fetch_word_at:
  assumes "length (registers s) = 33"
    and "0 \<le> registers s ! 0" "registers s ! 0 + 3 < int (length (memory s))"
    and "registers s ! 0 + 3 \<le> MAXVAL"
  shows "fetch_word s = Inr (word_at (memory s) (registers s ! 0),
      s\<lparr>registers := (registers s)[32 := word_at (memory s) (registers s ! 0),
                                      0 := registers s ! 0 + 4]\<rparr>)"
  using fetch_word_in [OF assms] by (simp add: word_at_def Let_def)

lemma decode_fetch:
  assumes "length (registers s) = 33"
    and "getreg s REG_PC = Inr pc"
    and "0 \<le> pc" "pc + 15 < int (length (memory s))" "pc + 15 \<le> MAXVAL"
  shows "decode_next_instr h s =
     dispatch h (fetched s pc) (word_at (memory s) pc) (word_at (memory s) (pc + 4))
       (word_at (memory s) (pc + 8)) (word_at (memory s) (pc + 12))"
proof -
  have pc: "registers s ! 0 = pc"
    using assms(1,2) by (simp add: getreg_in reg_defs)
  let ?m = "memory s"
  let ?s1 = "s\<lparr>registers := (registers s)[32 := word_at ?m pc, 0 := pc + 4]\<rparr>"
  let ?s2 = "s\<lparr>registers := (registers s)[32 := word_at ?m (pc + 4), 0 := pc + 8]\<rparr>"
  let ?s3 = "s\<lparr>registers := (registers s)[32 := word_at ?m (pc + 8), 0 := pc + 12]\<rparr>"
  have f1: "fetch_word s = Inr (word_at ?m pc, ?s1)"
    using fetch_word_at [of s] assms pc by simp
  have f2: "fetch_word ?s1 = Inr (word_at ?m (pc + 4), ?s2)"
    using fetch_word_at [of ?s1] assms by (simp add: list_eq_iff_nth_eq nth_list_update)
  have f3: "fetch_word ?s2 = Inr (word_at ?m (pc + 8), ?s3)"
    using fetch_word_at [of ?s2] assms by (simp add: list_eq_iff_nth_eq nth_list_update)
  have f4: "fetch_word ?s3 = Inr (word_at ?m (pc + 12), fetched s pc)"
    using fetch_word_at [of ?s3] assms by (simp add: fetched_def list_eq_iff_nth_eq nth_list_update)
  show ?thesis
    by (simp add: decode_next_instr_def f1 f2 f3 f4)
qed

subsection \<open>C10: what a decoded instruction can end in\<close>




definition mem_ok :: "cpu \<Rightarrow> int \<Rightarrow> bool" where
  "mem_ok s a = (- int (length (memory s)) \<le> a \<and> a < int (length (memory s)))"

definition mem_abort :: "cpu \<Rightarrow> int \<Rightarrow> exn option" where
  "mem_abort s a = (if mem_ok s a then None else Some IndexError)"

definition word_abort :: "cpu \<Rightarrow> int \<Rightarrow> exn option" where
  "word_abort s a =
     (if a + 3 > MAXVAL \<or> (mem_ok s a \<and> mem_ok s (a + 1) \<and> mem_ok s (a + 2) \<and> mem_ok s (a + 3))
      then None else Some IndexError)"












lemma setmem_ok: "mem_ok s a \<Longrightarrow> \<exists>m. setmem s a v = Inr (s\<lparr>memory := m\<rparr>) \<and> length m = length (memory s)"
  by (auto simp: mem_ok_def setmem_def py_index_def)


lemma mem_ok_regs [simp]: "mem_ok (s\<lparr>registers := r\<rparr>) a = mem_ok s a"
  by (simp add: mem_ok_def)

lemma mem_ok_mem: "length m = length (memory s) \<Longrightarrow> mem_ok (s\<lparr>memory := m\<rparr>) a = mem_ok s a"
  by (simp add: mem_ok_def)

lemma getmem_regs [simp]: "getmem (s\<lparr>registers := r\<rparr>) a = getmem s a"
  by (simp add: getmem_def split: option.splits)



lemma getreg_mem [simp]: "getreg (s\<lparr>memory := m\<rparr>) r = getreg s r"
  by (simp add: getreg_def split: option.splits)


lemma mem_ok_upd [simp]: "mem_ok (s\<lparr>memory := (memory s)[i := v]\<rparr>) a = mem_ok s a"
  by (simp add: mem_ok_def)

lemma mem_ok_upd2 [simp]: "mem_ok (s\<lparr>memory := (memory s)[i := v, j := w]\<rparr>) a = mem_ok s a"
  by (simp add: mem_ok_def)

lemma mem_ok_upd3 [simp]:
  "mem_ok (s\<lparr>memory := (memory s)[i := v, j := w, k := x]\<rparr>) a = mem_ok s a"
  by (simp add: mem_ok_def)




lemma word_abort_regs [simp]: "word_abort (s\<lparr>registers := r\<rparr>) a = word_abort s a"
  by (simp add: word_abort_def)

lemma mem_abort_regs [simp]: "mem_abort (s\<lparr>registers := r\<rparr>) a = mem_abort s a"
  by (simp add: mem_abort_def)












































































lemma init_facts:
  "length (registers (init m)) = 33" "getreg (init m) REG_PC = Inr 0"
  "getreg (init m) REG_TRAP = Inr 0" "memory (init m) = m"
  by (simp_all add: init_def reg_defs getreg_in)




subsection \<open>C8: the values the registers hold after an instruction\<close>

text \<open>
  \<open>in_range\<close> is the interval from MINVAL to MAXVAL, both included. \<open>file_ok\<close> says of
  a register file that it has its 33 cells, that each of them is in that interval, and
  that the cells of CARRY and of TRAP hold 0 or 1.
\<close>

definition in_range :: "int \<Rightarrow> bool" where
  "in_range v = (MINVAL \<le> v \<and> v \<le> MAXVAL)"

definition file_ok :: "int list \<Rightarrow> bool" where
  "file_ok xs = (length xs = 33 \<and> (\<forall>i<33. in_range (xs ! i))
     \<and> (xs ! 3 = 0 \<or> xs ! 3 = 1) \<and> (xs ! 5 = 0 \<or> xs ! 5 = 1))"

definition regs_ok :: "cpu \<Rightarrow> bool" where
  "regs_ok s = file_ok (registers s)"






definition loadwi_program :: "int list" where
  "loadwi_program = [0, 0, 0, 0x06,  0, 0, 0, 3,  0, 0, 0, 7,  0, 0, 0, 0]"

definition div_overflow_program :: "int list" where
  "div_overflow_program = [0, 0, 0, 0x10,  0, 0, 0, 6,  0, 0, 0, 7,  0, 0, 0, 8]"

definition div_overflow_state :: cpu where
  "div_overflow_state = (init div_overflow_program)
     \<lparr>registers := (registers (init div_overflow_program))[6 := MINVAL, 7 := - 1]\<rparr>"






















lemma regs_ok_other [simp]:
  "regs_ok (s\<lparr>memory := m\<rparr>) = regs_ok s"
  "regs_ok (s\<lparr>intr_event := e\<rparr>) = regs_ok s"
  "regs_ok (s\<lparr>intr_mask := k\<rparr>) = regs_ok s"
  "regs_ok (s\<lparr>intr_pending := p\<rparr>) = regs_ok s"
  by (simp_all add: regs_ok_def)




















lemma in_range_operand [simp]: "0 \<le> v \<Longrightarrow> v < 4294967296 \<Longrightarrow> in_range v"
  by (simp add: in_range_def MINVAL_def MAXVAL_def)


























































text \<open>
  Two more ways out of the range, on any host. An instruction whose destination is a flag
  register stores its result there: \<open>loadwi 3, 7\<close> leaves 7 in CARRY. And \<open>div\<close> stores
  the quotient unreduced: MINVAL divided by -1 is \<open>MAXVAL + 1\<close>.
\<close>

lemma flag_register_as_destination:
  "regs_ok (init loadwi_program)
   \<and> \<not> isl (decode_next_instr h (init loadwi_program))
   \<and> getreg (projr (decode_next_instr h (init loadwi_program))) REG_CARRY = Inr 7"
proof -
  let ?s = "init loadwi_program"
  have ok: "regs_ok ?s"
    by (simp add: regs_ok_def file_ok_def init_def reg_defs in_range_def MINVAL_def MAXVAL_def)
  have inside: "(0::int) \<le> 0" "(0::int) + 15 < int (length (memory ?s))" "(0::int) + 15 \<le> MAXVAL"
    by (simp_all add: init_facts loadwi_program_def MAXVAL_def)
  have w: "word_at (memory ?s) 0 = 0x06" "word_at (memory ?s) (0 + 4) = 3"
    "word_at (memory ?s) (0 + 8) = 7" "word_at (memory ?s) (0 + 12) = 0"
    by (simp_all add: init_facts loadwi_program_def word_at_def)
  have "decode_next_instr h ?s = dispatch h (fetched ?s 0) 0x06 3 7 0"
    using decode_fetch [OF init_facts(1,2) inside, of h] by (simp only: w)
  also have "\<dots> = loadwi (fetched ?s 0) 3 7"
    by (simp add: dispatch_def INSTRS_def py_index_def reg_defs call_instr_def)
  also have "\<dots> = Inr ((fetched ?s 0)\<lparr>registers := (registers (fetched ?s 0))[3 := 7]\<rparr>)"
    by (simp add: loadwi_def fetched_def init_def reg_defs setreg_in)
  finally have dec: "decode_next_instr h ?s =
      Inr ((fetched ?s 0)\<lparr>registers := (registers (fetched ?s 0))[3 := 7]\<rparr>)" .
  have "getreg (projr (decode_next_instr h ?s)) REG_CARRY = Inr 7"
    unfolding dec by (simp add: fetched_def init_def reg_defs getreg_in)
  with ok dec show ?thesis
    by simp
qed

lemma division_leaves_range:
  "regs_ok div_overflow_state
   \<and> \<not> isl (decode_next_instr h div_overflow_state)
   \<and> getreg (projr (decode_next_instr h div_overflow_state)) 8 = Inr (MAXVAL + 1)"
proof -
  let ?s = "div_overflow_state"
  have len: "length (registers ?s) = 33" and pc: "getreg ?s REG_PC = Inr 0"
    by (simp_all add: div_overflow_state_def init_def reg_defs getreg_in)
  have ok: "regs_ok ?s"
    by (simp add: regs_ok_def file_ok_def div_overflow_state_def init_def reg_defs in_range_def
        MINVAL_def MAXVAL_def nth_list_update)
  have inside: "(0::int) \<le> 0" "(0::int) + 15 < int (length (memory ?s))" "(0::int) + 15 \<le> MAXVAL"
    by (simp_all add: div_overflow_state_def init_def div_overflow_program_def MAXVAL_def)
  have w: "word_at (memory ?s) 0 = 0x10" "word_at (memory ?s) (0 + 4) = 6"
    "word_at (memory ?s) (0 + 8) = 7" "word_at (memory ?s) (0 + 12) = 8"
    by (simp_all add: div_overflow_state_def init_def div_overflow_program_def word_at_def)
  have "decode_next_instr h ?s = dispatch h (fetched ?s 0) 0x10 6 7 8"
    using decode_fetch [OF len pc inside, of h] by (simp only: w)
  also have "\<dots> = div_op (fetched ?s 0) 6 7 8"
    by (simp add: dispatch_def INSTRS_def py_index_def reg_defs call_instr_def)
  also have "\<dots> = Inr ((fetched ?s 0)\<lparr>registers := (registers (fetched ?s 0))[8 := MAXVAL + 1, 3 := 0]\<rparr>)"
    by (simp add: div_op_def Let_def fetched_def div_overflow_state_def init_def reg_defs
        getreg_in setreg_in MINVAL_def MAXVAL_def)
  finally have dec: "decode_next_instr h ?s =
      Inr ((fetched ?s 0)\<lparr>registers := (registers (fetched ?s 0))[8 := MAXVAL + 1, 3 := 0]\<rparr>)" .
  have "getreg (projr (decode_next_instr h ?s)) 8 = Inr (MAXVAL + 1)"
    unfolding dec by (simp add: fetched_def div_overflow_state_def init_def reg_defs getreg_in)
  with ok dec show ?thesis
    by simp
qed



end
